theory Spec2Isabelle
  imports Main
begin

section \<open>The listbox controller (\<open>ListboxController\<close>)\<close>

text \<open>
  A shallow embedding of the listbox controller of the component library: filtering of the
  option list, single and multiple selection, typeahead, and the \<open>change\<close> / \<open>input\<close>
  notifications sent to the host. DOM elements are objects with identity, so they live in
  an explicit store and every list of options is a list of references. Exceptions of the
  source are values of type \<open>js_error\<close>.
\<close>

subsection \<open>JavaScript built-ins used by the controller\<close>

datatype js_error = SyntaxError | TypeError

text \<open>\<open>Array.prototype.indexOf\<close>: the first index of the element, \<open>-1\<close> when absent.\<close>

fun indexOf :: "'a list \<Rightarrow> 'a \<Rightarrow> int" where
  "indexOf [] x = - 1"
| "indexOf (y # ys) x =
     (if y = x then 0 else (let i = indexOf ys x in if i < 0 then - 1 else i + 1))"

text \<open>\<open>Array.prototype.slice(start, end)\<close>: a negative index counts from the end, and
  both ends are clamped to the array.\<close>

definition js_slice :: "'a list \<Rightarrow> int \<Rightarrow> int \<Rightarrow> 'a list" where
  "js_slice xs start fin =
     (let len = int (length xs);
          k = (if start < 0 then max (len + start) 0 else min start len);
          final = (if fin < 0 then max (len + fin) 0 else min fin len)
      in take (nat (final - k)) (drop (nat k) xs))"

text \<open>\<open>Array.prototype.slice(start)\<close>: to the end of the array.\<close>

definition js_slice_from :: "'a list \<Rightarrow> int \<Rightarrow> 'a list" where
  "js_slice_from xs start = js_slice xs start (int (length xs))"

text \<open>\<open>Number.prototype.toString\<close> on an integer: decimal digits, with a leading minus
  sign for a negative number.\<close>

definition digit_char :: "nat \<Rightarrow> char" where
  "digit_char d = char_of (48 + d)"

fun digits :: "nat \<Rightarrow> string" where
  "digits n = (if n < 10 then [digit_char n] else digits (n div 10) @ [digit_char (n mod 10)])"

declare digits.simps [simp del]

definition to_string :: "int \<Rightarrow> string" where
  "to_string i = (if i < 0 then CHR ''-'' # digits (nat (- i)) else digits (nat i))"

text \<open>The \<open><\<close> of JavaScript on strings: lexicographic on the code units.\<close>

fun js_string_less :: "string \<Rightarrow> string \<Rightarrow> bool" where
  "js_string_less [] [] = False"
| "js_string_less [] (y # ys) = True"
| "js_string_less (x # xs) [] = False"
| "js_string_less (x # xs) (y # ys) =
     (if (of_char x :: nat) < of_char y then True
      else if (of_char y :: nat) < of_char x then False
      else js_string_less xs ys)"

text \<open>\<open>[a, b].sort()\<close> with no comparator: the elements are compared as strings, and the
  order of \<open>a\<close> and \<open>b\<close> is kept unless the string of \<open>b\<close> is smaller.\<close>

definition js_sort_pair :: "int \<Rightarrow> int \<Rightarrow> int \<times> int" where
  "js_sort_pair a b = (if js_string_less (to_string b) (to_string a) then (b, a) else (a, b))"

text \<open>\<open>String.prototype.split(',')\<close>: the pieces between the commas; the empty string
  gives one empty piece.\<close>

fun split_comma :: "string \<Rightarrow> string list" where
  "split_comma [] = [[]]"
| "split_comma (c # cs) =
     (if c = CHR '','' then [] # split_comma cs
      else (case split_comma cs of [] \<Rightarrow> [[c]] | t # ts \<Rightarrow> (c # t) # ts))"

subsection \<open>Strings and regular expressions\<close>

text \<open>
  A string of JavaScript is a sequence of code units, and a character of the model is one
  code unit; the type has the 256 code units below \<open>0x100\<close>. What the engine does beyond
  the part written out here is taken as given, in a record that the controller carries
  with it unchanged:
  \<^item> \<open>toUpperCase c\<close> is the upper-case form of the code unit \<open>c\<close> when the upper case
    of the one-character string has one code unit, and \<open>c\<close> itself otherwise; it is read
    for the code units from 128 on only (for the others the upper case is written out);
  \<^item> \<open>otherRegExp pattern flags\<close> is \<open>new RegExp(pattern, flags)\<close> for a pattern that
    is not of the two kinds below: \<open>None\<close> when the constructor throws \<open>SyntaxError\<close>, and
    otherwise the function that says of a text whether \<open>text.match(regex)\<close> finds a match.
\<close>

record js_engine =
  toUpperCase :: "char \<Rightarrow> char"
  otherRegExp :: "string \<Rightarrow> string \<Rightarrow> (string \<Rightarrow> bool) option"

text \<open>
  The controller builds \<open>new RegExp(pattern, flags)\<close> from the filter text, unescaped.
  Two kinds of pattern are written out. A pattern made of an optional leading \<open>^\<close> and
  ordinary characters (no syntax character of the pattern grammar) matches a text that
  starts with the characters (after \<open>^\<close>) or contains them. A pattern whose only syntax
  characters, after an optional leading \<open>^\<close>, are opening parentheses has a group that is
  never closed, and the constructor throws \<open>SyntaxError\<close>. Every other pattern is left to
  the engine.
\<close>

definition syntax_char :: "char \<Rightarrow> bool" where
  "syntax_char c = List.member [CHR ''^'', CHR ''$'', CHR 0x5C, CHR ''.'', CHR ''*'', CHR ''+'',
     CHR ''?'', CHR ''('', CHR '')'', CHR ''['', CHR '']'', CHR ''{'', CHR ''}'', CHR ''|''] c"

definition plain_text :: "string \<Rightarrow> bool" where
  "plain_text p = list_all (\<lambda>c. \<not> syntax_char c) p"

text \<open>A regular expression: \<open>Plain anchored characters ignoreCase\<close>, or one of the engine's
  own, known by the texts it matches.\<close>

datatype regexp = Plain bool string bool | Other "string \<Rightarrow> bool"

definition RegExp :: "js_engine \<Rightarrow> string \<Rightarrow> string \<Rightarrow> js_error + regexp" where
  "RegExp e pattern flags =
     (let anch = (case pattern of [] \<Rightarrow> False | c # _ \<Rightarrow> c = CHR ''^'');
          body = (if anch then tl pattern else pattern)
      in if plain_text body then Inr (Plain anch body (List.member flags CHR ''i''))
         else if plain_text (filter (\<lambda>c. c \<noteq> CHR ''('') body) then Inl SyntaxError
         else (case otherRegExp e pattern flags of
                 None \<Rightarrow> Inl SyntaxError
               | Some m \<Rightarrow> Inr (Other m)))"

text \<open>
  The \<open>Canonicalize\<close> of the language, by which the flag \<open>i\<close> compares two code units: the
  upper-case form of the code unit when it is one code unit, except that a code unit from
  128 on is kept when its upper-case form is below 128. Below 128 the upper case is that
  of the letters \<open>a\<close> to \<open>z\<close>.
\<close>

definition canonicalize :: "js_engine \<Rightarrow> char \<Rightarrow> char" where
  "canonicalize e c =
     (let n = (of_char c :: nat)
      in if n < 128 then (if 97 \<le> n \<and> n \<le> 122 then char_of (n - 32) else c)
         else (let u = toUpperCase e c in if (of_char u :: nat) < 128 then c else u))"

fun starts_with :: "string \<Rightarrow> string \<Rightarrow> bool" where
  "starts_with text [] = True"
| "starts_with [] (p # ps) = False"
| "starts_with (c # cs) (p # ps) = (c = p \<and> starts_with cs ps)"

fun contains :: "string \<Rightarrow> string \<Rightarrow> bool" where
  "contains [] pat = starts_with [] pat"
| "contains (c # cs) pat = (starts_with (c # cs) pat \<or> contains cs pat)"

text \<open>\<open>text.match(regex)\<close>, read as a truth value.\<close>

definition regexp_match :: "js_engine \<Rightarrow> regexp \<Rightarrow> string \<Rightarrow> bool" where
  "regexp_match e r text =
     (case r of
        Plain anch characters ignoreCase \<Rightarrow>
          (let fold = (\<lambda>s. if ignoreCase then map (canonicalize e) s else s)
           in if anch then starts_with (fold text) (fold characters)
              else contains (fold text) (fold characters))
      | Other m \<Rightarrow> m text)"

text \<open>\<open>key.match(/^[\w]$/)\<close>: the key is one letter, digit or underscore.\<close>

definition word_char :: "char \<Rightarrow> bool" where
  "word_char c =
     (let n = (of_char c :: nat)
      in (48 \<le> n \<and> n \<le> 57) \<or> (65 \<le> n \<and> n \<le> 90) \<or> n = 95 \<or> (97 \<le> n \<and> n \<le> 122))"

definition word_key :: "string \<Rightarrow> bool" where
  "word_key k = (case k of [c] \<Rightarrow> word_char c | _ \<Rightarrow> False)"

subsection \<open>Option elements and the store\<close>

text \<open>
  An option is a DOM element. \<open>id_attr\<close> is its \<open>id\<close> attribute (\<open>None\<close> when the element
  has none: \<open>getAttribute('id')\<close> is then \<open>null\<close>, the \<open>id\<close> property the empty string);
  \<open>disabled_attr\<close>, \<open>hidden_by_filter\<close> and \<open>active_descendant\<close> say whether the attribute of
  that name is present.
\<close>

type_synonym ref = nat

record element =
  id_attr :: "string option"
  textContent :: string
  option_value :: string
  selected :: bool
  disabled_attr :: bool
  hidden :: bool
  hidden_by_filter :: bool
  active_descendant :: bool
  posInSet :: nat
  setSize :: nat

text \<open>The store: a finite map from references to elements, as an association list. A
  reference that is not in the store is some other element of the document, one that
  carries no text and none of the attributes above.\<close>

definition blank_element :: element where
  "blank_element =
     \<lparr>id_attr = None, textContent = [], option_value = [], selected = False,
      disabled_attr = False, hidden = False, hidden_by_filter = False,
      active_descendant = False, posInSet = 0, setSize = 0\<rparr>"

fun lookup :: "(ref \<times> element) list \<Rightarrow> ref \<Rightarrow> element" where
  "lookup [] r = blank_element"
| "lookup ((q, e) # rest) r = (if q = r then e else lookup rest r)"

fun store_put :: "ref \<Rightarrow> element \<Rightarrow> (ref \<times> element) list \<Rightarrow> (ref \<times> element) list" where
  "store_put r e [] = [(r, e)]"
| "store_put r e ((q, d) # rest) =
     (if q = r then (r, e) # rest else (q, d) # store_put r e rest)"

definition id_prop :: "element \<Rightarrow> string" where
  "id_prop e = (case id_attr e of None \<Rightarrow> [] | Some i \<Rightarrow> i)"

definition first_of :: "'a list \<Rightarrow> 'a option" where
  "first_of xs = (case xs of [] \<Rightarrow> None | x # _ \<Rightarrow> Some x)"

definition last_of :: "'a list \<Rightarrow> 'a option" where
  "last_of xs = (case rev xs of [] \<Rightarrow> None | x # _ \<Rightarrow> Some x)"

subsection \<open>The roving-focus tracker\<close>

text \<open>
  Modelled from the spec: the class \<open>RovingTabindexController\<close>
  (\<open>@patternfly/pfe-core/controllers/roving-tabindex-controller.js\<close>) is imported by the
  listbox controller and is not among the sources. The tracker holds an ordered list of
  items and one active pointer.
\<close>

record tracker =
  items :: "ref list"
  activePointer :: "ref option"

text \<open>Modelled from the spec: \<open>initItems\<close> of the absent class replaces the tracked items
  and resets the active pointer to the first item.\<close>

definition initItems :: "ref list \<Rightarrow> tracker" where
  "initItems xs = \<lparr>items = xs, activePointer = first_of xs\<rparr>"

text \<open>Modelled from the spec: \<open>updateItems\<close> of the absent class replaces the tracked items
  and keeps the active pointer when its item is still in the new list, otherwise takes the
  first item.\<close>

definition updateItems :: "ref list \<Rightarrow> tracker \<Rightarrow> tracker" where
  "updateItems xs t =
     \<lparr>items = xs,
      activePointer =
        (case activePointer t of
           None \<Rightarrow> first_of xs
         | Some a \<Rightarrow> if List.member xs a then Some a else first_of xs)\<rparr>"

text \<open>Modelled from the spec: \<open>updateActiveItem\<close> of the absent class reassigns the active
  pointer without moving the input focus; on an empty item list it does nothing.\<close>

definition updateActiveItem :: "ref \<Rightarrow> tracker \<Rightarrow> tracker" where
  "updateActiveItem r t = (if items t = [] then t else t\<lparr>activePointer := Some r\<rparr>)"

text \<open>Modelled from the spec: \<open>firstItem\<close> and \<open>lastItem\<close> of the absent class are the first
  and the last tracked item, absent when no item is tracked.\<close>

definition firstItem :: "tracker \<Rightarrow> ref option" where
  "firstItem t = first_of (items t)"

definition lastItem :: "tracker \<Rightarrow> ref option" where
  "lastItem t = last_of (items t)"

subsection \<open>The state of the controller\<close>

datatype notification = Change | Input

text \<open>
  The engine the controller runs on, the private fields of the controller, the two flags
  it keeps in the element internals
  (\<open>disabled\<close> is \<open>ariaDisabled === 'true'\<close>, \<open>multiSelectable\<close> is
  \<open>ariaMultiSelectable === 'true'\<close>), the active descendant (\<open>None\<close> is \<open>null\<close>), the
  element that holds the input focus (\<open>document.activeElement\<close>), and the events the
  controller has dispatched on its host, oldest first.
\<close>

record listbox =
  engine :: js_engine
  store :: "(ref \<times> element) list"
  options :: "ref list"
  filter_text :: string
  showAllOptions :: bool
  caseSensitive :: bool
  disableFilter :: bool
  matchAnywhere :: bool
  shiftStartingItem :: "ref option"
  updateFocus :: bool
  ariaActivedescendant :: "string option"
  disabled :: bool
  multiSelectable :: bool
  tabindex :: tracker
  activeElement :: "ref option"
  dispatched :: "notification list"

record event =
  key :: string
  shiftKey :: bool
  ctrlKey :: bool
  altKey :: bool
  metaKey :: bool
  target :: ref

text \<open>The element behind a reference, and a write to one element.\<close>

abbreviation heap :: "listbox \<Rightarrow> ref \<Rightarrow> element" where
  "heap s r \<equiv> lookup (store s) r"

definition upd_elem :: "ref \<Rightarrow> (element \<Rightarrow> element) \<Rightarrow> listbox \<Rightarrow> listbox" where
  "upd_elem r f s = s\<lparr>store := store_put r (f (heap s r)) (store s)\<rparr>"

text \<open>\<open>list.forEach(option => option.selected = f(option))\<close>, in the order of the list.\<close>

fun forEach_selected :: "(ref \<Rightarrow> element \<Rightarrow> bool) \<Rightarrow> ref list \<Rightarrow> listbox \<Rightarrow> listbox" where
  "forEach_selected f [] s = s"
| "forEach_selected f (r # rs) s =
     forEach_selected f rs (upd_elem r (\<lambda>e. e\<lparr>selected := f r e\<rparr>) s)"

definition fireChange :: "listbox \<Rightarrow> listbox" where
  "fireChange s = s\<lparr>dispatched := dispatched s @ [Change]\<rparr>"

definition fireInput :: "listbox \<Rightarrow> listbox" where
  "fireInput s = s\<lparr>dispatched := dispatched s @ [Input]\<rparr>"

text \<open>Modelled from the spec: \<open>focusOnItem\<close> of the absent class
  \<open>RovingTabindexController\<close> reassigns the active pointer and moves the input focus to
  the item; on an empty item list it does nothing.\<close>

definition focusOnItem :: "ref \<Rightarrow> listbox \<Rightarrow> listbox" where
  "focusOnItem r s =
     (if items (tabindex s) = [] then s
      else s\<lparr>tabindex := updateActiveItem r (tabindex s), activeElement := Some r\<rparr>)"

subsection \<open>Derived values\<close>

definition activeItem :: "listbox \<Rightarrow> ref option" where
  "activeItem s =
     (case filter (\<lambda>r. id_attr (heap s r) = ariaActivedescendant s) (options s) of
        [] \<Rightarrow> firstItem (tabindex s)
      | a # _ \<Rightarrow> Some a)"

definition selectedOptions :: "listbox \<Rightarrow> ref list" where
  "selectedOptions s = filter (\<lambda>r. selected (heap s r)) (options s)"

text \<open>The getter \<open>value\<close>: the array of the selected options when multi-selectable (a new
  array at every read), else the first selected option or \<open>undefined\<close>.\<close>

datatype listbox_value = Single "ref option" | Multiple "ref list"

definition get_value :: "listbox \<Rightarrow> listbox_value" where
  "get_value s =
     (if multiSelectable s then Multiple (selectedOptions s)
      else Single (first_of (selectedOptions s)))"

text \<open>\<open>oldValue !== this.value\<close>, where both sides were read from the getter at different
  moments: two elements are compared by identity, and two arrays are two different
  objects whatever they hold.\<close>

fun strict_neq :: "listbox_value \<Rightarrow> listbox_value \<Rightarrow> bool" where
  "strict_neq (Single a) (Single b) = (a \<noteq> b)"
| "strict_neq (Multiple xs) (Multiple ys) = True"
| "strict_neq (Single a) (Multiple ys) = True"
| "strict_neq (Multiple xs) (Single b) = True"

text \<open>The callback of \<open>this.options.filter\<close> in the getter \<open>visibleOptions\<close>: the regular
  expression is built once per option, before the test for the empty filter.\<close>

fun filterOptions :: "listbox \<Rightarrow> ref list \<Rightarrow> js_error + ref list" where
  "filterOptions s [] = Inr []"
| "filterOptions s (r # rs) =
     (case RegExp (engine s) ((if matchAnywhere s then [] else ''^'') @ filter_text s)
             (if caseSensitive s then [] else ''i'') of
        Inl e \<Rightarrow> Inl e
      | Inr regex \<Rightarrow>
          (case filterOptions s rs of
             Inl e \<Rightarrow> Inl e
           | Inr keep \<Rightarrow>
               Inr (if filter_text s = [] \<or>
                       regexp_match (engine s) regex (textContent (heap s r))
                    then r # keep else keep)))"

definition matchedOptions :: "listbox \<Rightarrow> js_error + ref list" where
  "matchedOptions s =
     (case (if disableFilter s \<or> filter_text s = ''*'' \<or> showAllOptions s then Inr []
            else filterOptions s (options s)) of
        Inl e \<Rightarrow> Inl e
      | Inr m \<Rightarrow> Inr (if length m < 1 then options s else m))"

text \<open>The second loop of the getter: the \<open>hidden-by-filter\<close> attribute of every option, and
  the flag set when the focused option is being hidden.\<close>

fun markOptions :: "ref list \<Rightarrow> ref list \<Rightarrow> listbox \<Rightarrow> listbox" where
  "markOptions matched [] s = s"
| "markOptions matched (r # rs) s =
     markOptions matched rs
       (if List.member matched r then upd_elem r (\<lambda>e. e\<lparr>hidden_by_filter := False\<rparr>) s
        else upd_elem r (\<lambda>e. e\<lparr>hidden_by_filter := True\<rparr>)
               (if activeElement s = Some r then s\<lparr>updateFocus := True\<rparr> else s))"

definition visibleOptions :: "listbox \<Rightarrow> js_error + (ref list \<times> listbox)" where
  "visibleOptions s =
     (case matchedOptions s of
        Inl e \<Rightarrow> Inl e
      | Inr matched \<Rightarrow> Inr (matched, markOptions matched (options s) s))"

subsection \<open>Configuration and public operations\<close>

text \<open>\<open>#onFilterChange\<close>. The test of \<open>#updateFocus\<close> comes before the read of
  \<open>visibleOptions\<close>, which may set the flag again.\<close>

definition onFilterChange :: "listbox \<Rightarrow> js_error + listbox" where
  "onFilterChange s =
     (if disabled s then Inr s
      else (let oldValue = get_value s in
        (case visibleOptions s of
           Inl e \<Rightarrow> Inl e
         | Inr (vis, s1) \<Rightarrow>
             (let s2 = (if updateFocus s
                        then s1\<lparr>tabindex := updateItems vis (tabindex s1), updateFocus := False\<rparr>
                        else s1\<lparr>tabindex := initItems vis\<rparr>)
              in Inr (if strict_neq oldValue (get_value s2) then fireInput s2 else s2)))))"

definition set_filter :: "string \<Rightarrow> listbox \<Rightarrow> js_error + listbox" where
  "set_filter filterText s =
     (if filter_text s \<noteq> filterText then onFilterChange (s\<lparr>filter_text := filterText\<rparr>)
      else Inr s)"

definition set_caseSensitive :: "bool \<Rightarrow> listbox \<Rightarrow> js_error + listbox" where
  "set_caseSensitive b s =
     (if caseSensitive s \<noteq> b then onFilterChange (s\<lparr>caseSensitive := b\<rparr>) else Inr s)"

definition set_disableFilter :: "bool \<Rightarrow> listbox \<Rightarrow> js_error + listbox" where
  "set_disableFilter b s =
     (if disableFilter s \<noteq> b then onFilterChange (s\<lparr>disableFilter := b\<rparr>) else Inr s)"

definition set_matchAnywhere :: "bool \<Rightarrow> listbox \<Rightarrow> js_error + listbox" where
  "set_matchAnywhere b s =
     (if matchAnywhere s \<noteq> b then onFilterChange (s\<lparr>matchAnywhere := b\<rparr>) else Inr s)"

definition set_disabled :: "bool \<Rightarrow> listbox \<Rightarrow> listbox" where
  "set_disabled b s = s\<lparr>disabled := b\<rparr>"

definition set_multiSelectable :: "bool \<Rightarrow> listbox \<Rightarrow> listbox" where
  "set_multiSelectable b s = s\<lparr>multiSelectable := b\<rparr>"

text \<open>The setter \<open>options\<close>: \<open>setSize\<close> and the 0-based \<open>posInSet\<close> of every new option.\<close>

fun annotate :: "nat \<Rightarrow> nat \<Rightarrow> ref list \<Rightarrow> listbox \<Rightarrow> listbox" where
  "annotate n i [] s = s"
| "annotate n i (r # rs) s =
     annotate n (Suc i) rs (upd_elem r (\<lambda>e. e\<lparr>posInSet := i, setSize := n\<rparr>) s)"

definition set_options :: "ref list \<Rightarrow> listbox \<Rightarrow> js_error + listbox" where
  "set_options new s =
     (if length new = length (options s) \<and> list_all2 (=) new (options s) then Inr s
      else (case visibleOptions ((annotate (length new) 0 new s)\<lparr>options := new\<rparr>) of
              Inl e \<Rightarrow> Inl e
            | Inr (vis, s1) \<Rightarrow> Inr (s1\<lparr>tabindex := initItems vis\<rparr>)))"

text \<open>The setter \<open>value\<close>. Its argument is one item or an array of items; an item is an
  element or a string (the type of an option's \<open>value\<close>).\<close>

datatype js_item = Elem ref | Str string

datatype value_arg = One js_item | Many "js_item list"

definition set_value :: "value_arg \<Rightarrow> listbox \<Rightarrow> listbox" where
  "set_value optionsList s =
     (let oldValue = get_value s;
          firstItem = (case optionsList of One x \<Rightarrow> Some x | Many xs \<Rightarrow> first_of xs);
          s1 = forEach_selected
                 (\<lambda>r e. case optionsList of
                    Many xs \<Rightarrow> if multiSelectable s then List.member xs (Str (option_value e))
                               else firstItem = Some (Elem r)
                  | One x \<Rightarrow> firstItem = Some (Elem r))
                 (options s) s
      in if strict_neq oldValue (get_value s1) then fireInput s1 else s1)"

text \<open>\<open>isValid\<close>: \<open>None\<close> is the \<open>null\<close> argument.\<close>

definition isValid :: "string option \<Rightarrow> listbox \<Rightarrow> bool" where
  "isValid val s =
     (let vals = (case val of None \<Rightarrow> [] | Some v \<Rightarrow> split_comma v);
          texts = map (\<lambda>r. textContent (heap s r)) (options s)
      in list_all (\<lambda>v. List.member texts v) vals)"

definition focus :: "listbox \<Rightarrow> listbox" where
  "focus s = (case activePointer (tabindex s) of None \<Rightarrow> s | Some a \<Rightarrow> focusOnItem a s)"

subsection \<open>Selection\<close>

text \<open>\<open>#updateActiveDescendant\<close>: one pass over the options; \<open>visibleOptions\<close> is read only
  for the option the tracker has as active.\<close>

fun updateActiveDescendant_loop :: "ref list \<Rightarrow> listbox \<Rightarrow> js_error + listbox" where
  "updateActiveDescendant_loop [] s = Inr s"
| "updateActiveDescendant_loop (r # rs) s =
     (let clear = (\<lambda>st. upd_elem r (\<lambda>e. e\<lparr>active_descendant := False\<rparr>)
                     (if ariaActivedescendant st = Some (id_prop (heap st r))
                      then st\<lparr>ariaActivedescendant := None\<rparr> else st))
      in if activePointer (tabindex s) = Some r
         then (case visibleOptions s of
                 Inl e \<Rightarrow> Inl e
               | Inr (vis, s1) \<Rightarrow>
                   if List.member vis r
                   then updateActiveDescendant_loop rs
                          (upd_elem r (\<lambda>e. e\<lparr>active_descendant := True\<rparr>)
                             (s1\<lparr>ariaActivedescendant := Some (id_prop (heap s1 r))\<rparr>))
                   else updateActiveDescendant_loop rs (clear s1))
         else updateActiveDescendant_loop rs (clear s))"

definition updateActiveDescendant :: "listbox \<Rightarrow> js_error + listbox" where
  "updateActiveDescendant s = updateActiveDescendant_loop (options s) s"

definition updateSingleselect :: "listbox \<Rightarrow> listbox" where
  "updateSingleselect s =
     (if multiSelectable s then s
      else fireChange
             (forEach_selected (\<lambda>r e. Some (id_prop e) = ariaActivedescendant s) (options s) s))"

text \<open>\<open>#updateMultiselect(currentItem, referenceItem, ctrlKey)\<close>. The reference item may be
  \<open>undefined\<close> (\<open>None\<close>): its index is then \<open>-1\<close>, and reading its \<open>selected\<close> throws.\<close>

definition updateMultiselect :: "ref \<Rightarrow> ref option \<Rightarrow> bool \<Rightarrow> listbox \<Rightarrow> js_error + listbox" where
  "updateMultiselect currentItem referenceItem ctrl s =
     (if multiSelectable s
      then (let (start, fin) = js_sort_pair (indexOf (map Some (options s)) referenceItem)
                                            (indexOf (options s) currentItem);
                range = js_slice (options s) start (fin + 1);
                allSelected = (ctrl \<and> length (filter (\<lambda>r. \<not> selected (heap s r)) range) = 0)
            in (case (if ctrl \<and> allSelected then Inr False
                      else if ctrl then Inr True
                      else (case referenceItem of
                              None \<Rightarrow> Inl TypeError
                            | Some r \<Rightarrow> Inr (selected (heap s r)))) of
                  Inl e \<Rightarrow> Inl e
                | Inr toggle \<Rightarrow>
                    Inr ((forEach_selected (\<lambda>r e. toggle) range s)
                           \<lparr>shiftStartingItem := Some currentItem\<rparr>)))
      else Inr s)"

subsection \<open>Event handlers\<close>

text \<open>
  The four listeners of the host. An event always has a target, so the tests
  \<open>if (target)\<close> of the source always succeed. The calls of \<open>stopPropagation\<close> and
  \<open>preventDefault\<close> act on the event and not on the controller, and are left out, as is the
  orientation, which only the tracker reads.
\<close>

definition onOptionFocus :: "event \<Rightarrow> listbox \<Rightarrow> js_error + listbox" where
  "onOptionFocus ev s =
     updateActiveDescendant
       (if Some (target ev) \<noteq> activePointer (tabindex s)
        then s\<lparr>tabindex := updateActiveItem (target ev) (tabindex s)\<rparr> else s)"

definition toggle_selected :: "ref \<Rightarrow> listbox \<Rightarrow> listbox" where
  "toggle_selected r s = upd_elem r (\<lambda>e. e\<lparr>selected := \<not> selected e\<rparr>) s"

definition onOptionClick :: "event \<Rightarrow> listbox \<Rightarrow> js_error + listbox" where
  "onOptionClick ev s =
     (let oldValue = get_value s in
      (case (if multiSelectable s
             then (if \<not> shiftKey ev then Inr (toggle_selected (target ev) s)
                   else (case shiftStartingItem s of
                           None \<Rightarrow> Inr s
                         | Some a \<Rightarrow>
                             (case updateMultiselect (target ev) (Some a) False s of
                                Inl e \<Rightarrow> Inl e
                              | Inr s1 \<Rightarrow> Inr (fireChange s1))))
             else Inr (forEach_selected (\<lambda>r e. r = target ev) (options s) s)) of
         Inl e \<Rightarrow> Inl e
       | Inr s1 \<Rightarrow>
           (case (if Some (target ev) \<noteq> activePointer (tabindex s1)
                  then updateActiveDescendant (focusOnItem (target ev) s1)
                  else Inr s1) of
              Inl e \<Rightarrow> Inl e
            | Inr s2 \<Rightarrow> Inr (if strict_neq oldValue (get_value s2) then fireChange s2 else s2))))"

definition onOptionKeyup :: "event \<Rightarrow> listbox \<Rightarrow> js_error + listbox" where
  "onOptionKeyup ev s =
     (if shiftKey ev \<and> multiSelectable s
      then (case (case shiftStartingItem s of
                    None \<Rightarrow> Inr s
                  | Some a \<Rightarrow>
                      (case updateMultiselect (target ev) (Some a) False s of
                         Inl e \<Rightarrow> Inl e
                       | Inr s1 \<Rightarrow> Inr (fireChange s1))) of
              Inl e \<Rightarrow> Inl e
            | Inr s1 \<Rightarrow> Inr (if key ev = ''Shift'' then s1\<lparr>shiftStartingItem := None\<rparr> else s1))
      else Inr s)"

text \<open>\<open>#nextMatchingItem\<close>: the option the typeahead moves to, if any.\<close>

definition nextMatchingItem :: "string \<Rightarrow> listbox \<Rightarrow> js_error + (ref option \<times> listbox)" where
  "nextMatchingItem k s =
     (case visibleOptions s of
        Inl e \<Rightarrow> Inl e
      | Inr (its, s1) \<Rightarrow>
          (let index = (if activeItem s1 = None then indexOf (map Some its) (activeItem s1)
                        else - 1);
               sequence = js_slice_from its index @ js_slice its 0 index
           in (case RegExp (engine s1) (''^'' @ k) (if caseSensitive s1 then [] else ''i'') of
                 Inl e \<Rightarrow> Inl e
               | Inr regex \<Rightarrow>
                   Inr (find (\<lambda>r. \<not> disabled_attr (heap s1 r) \<and> \<not> hidden (heap s1 r) \<and>
                                  regexp_match (engine s1) regex (textContent (heap s1 r)))
                          sequence,
                        s1))))"

text \<open>The end of \<open>#onOptionKeydown\<close>, reached by every branch that does not return early:
  the \<open>change\<close> event when the value differs from the one read at the start, then the
  move of the focus.\<close>

definition keydown_finish :: "listbox_value \<Rightarrow> ref option \<Rightarrow> listbox \<Rightarrow> listbox" where
  "keydown_finish oldValue focusEvent s =
     (let s1 = (if strict_neq oldValue (get_value s) then fireChange s else s)
      in (case focusEvent of None \<Rightarrow> s1 | Some f \<Rightarrow> focusOnItem f s1))"

definition onOptionKeydown :: "event \<Rightarrow> listbox \<Rightarrow> js_error + listbox" where
  "onOptionKeydown ev s =
     (let s0 = s\<lparr>showAllOptions := False\<rparr>;
          s1 = (if key ev = ''Shift'' \<and> multiSelectable s0
                then s0\<lparr>shiftStartingItem := activeItem s0\<rparr> else s0);
          oldValue = get_value s1
      in if altKey ev \<or> metaKey ev then Inr s1
         else if ctrlKey ev
         then (case (if key ev = ''a'' \<or> key ev = ''A'' then firstItem (tabindex s1) else None) of
                 None \<Rightarrow> Inr s1
               | Some first \<Rightarrow>
                   (case updateMultiselect first (lastItem (tabindex s1)) True s1 of
                      Inl e \<Rightarrow> Inl e
                    | Inr s2 \<Rightarrow> Inr (keydown_finish oldValue None s2)))
         else if word_key (key ev)
         then (case nextMatchingItem (key ev) s1 of
                 Inl e \<Rightarrow> Inl e
               | Inr (focusEvent, s2) \<Rightarrow> Inr (keydown_finish oldValue focusEvent s2))
         else if key ev = ''Enter'' \<or> key ev = '' ''
         then (case (if multiSelectable s1
                     then (if shiftKey ev
                           then updateMultiselect (target ev) (activeItem s1) False s1
                           else Inr (toggle_selected (target ev) s1))
                     else Inr (updateSingleselect s1)) of
                 Inl e \<Rightarrow> Inl e
               | Inr s2 \<Rightarrow> Inr (keydown_finish oldValue None s2))
         else Inr (keydown_finish oldValue None s1))"

subsection \<open>Sequences of operations\<close>

text \<open>What the host does to the controller: it sets a property, or forwards one of the
  four DOM events the controller listens to.\<close>

datatype operation =
    SetOptions "ref list"
  | SetFilter string
  | SetCaseSensitive bool
  | SetDisableFilter bool
  | SetMatchAnywhere bool
  | SetDisabled bool
  | SetMultiSelectable bool
  | SetValue value_arg
  | Keydown event
  | Keyup event
  | OptionFocus event
  | Click event

fun handle :: "operation \<Rightarrow> listbox \<Rightarrow> js_error + listbox" where
  "handle (SetOptions new) s = set_options new s"
| "handle (SetFilter f) s = set_filter f s"
| "handle (SetCaseSensitive b) s = set_caseSensitive b s"
| "handle (SetDisableFilter b) s = set_disableFilter b s"
| "handle (SetMatchAnywhere b) s = set_matchAnywhere b s"
| "handle (SetDisabled b) s = Inr (set_disabled b s)"
| "handle (SetMultiSelectable b) s = Inr (set_multiSelectable b s)"
| "handle (SetValue v) s = Inr (set_value v s)"
| "handle (Keydown ev) s = onOptionKeydown ev s"
| "handle (Keyup ev) s = onOptionKeyup ev s"
| "handle (OptionFocus ev) s = onOptionFocus ev s"
| "handle (Click ev) s = onOptionClick ev s"

fun run :: "operation list \<Rightarrow> listbox \<Rightarrow> js_error + listbox" where
  "run [] s = Inr s"
| "run (e # es) s = (case handle e s of Inl err \<Rightarrow> Inl err | Inr s1 \<Rightarrow> run es s1)"

subsection \<open>The options of the test suite\<close>

text \<open>
  The controller as its constructor leaves it when no configuration option is set, over
  a store whose element \<open>i\<close> is an option with the \<open>i\<close>-th text of a list (its \<open>id\<close> and
  value are the text); the eight colours are the options of the tests of the select
  element. \<open>pressed\<close> is a key event with no modifier, \<open>clicked\<close> a mouse event.

  The engine of the examples has the upper case of Unicode on the code units below
  \<open>0x100\<close>: the letters from \<open>0xE0\<close> to \<open>0xFE\<close>, the division sign \<open>0xF7\<close> apart, have their
  upper case 32 below; the upper case of \<open>0xDF\<close> has two code units; the upper cases of
  \<open>0xB5\<close> and \<open>0xFF\<close> are above \<open>0xFF\<close> and shared with no other code unit below \<open>0x100\<close>,
  so that the two stand for themselves. It knows no pattern other than the two kinds
  written out; the examples build no other, and their texts, but for the one example
  with an accented letter, are of code units below 128, so that neither function of the
  engine is read there.
\<close>

definition mk_option :: "string \<Rightarrow> element" where
  "mk_option txt =
     \<lparr>id_attr = Some txt, textContent = txt, option_value = txt, selected = False,
      disabled_attr = False, hidden = False, hidden_by_filter = False,
      active_descendant = False, posInSet = 0, setSize = 0\<rparr>"

definition store_of :: "string list \<Rightarrow> (ref \<times> element) list" where
  "store_of names = zip [0..<length names] (map mk_option names)"

definition latin1_upper :: "char \<Rightarrow> char" where
  "latin1_upper c =
     (let n = (of_char c :: nat)
      in if 224 \<le> n \<and> n \<le> 254 \<and> n \<noteq> 247 then char_of (n - 32) else c)"

definition example_engine :: js_engine where
  "example_engine = \<lparr>toUpperCase = latin1_upper, otherRegExp = (\<lambda>pattern flags. None)\<rparr>"

definition new_listbox :: "(ref \<times> element) list \<Rightarrow> listbox" where
  "new_listbox h =
     \<lparr>engine = example_engine, store = h, options = [], filter_text = [], showAllOptions = False,
      caseSensitive = False, disableFilter = False, matchAnywhere = False,
      shiftStartingItem = None, updateFocus = False, ariaActivedescendant = None,
      disabled = False, multiSelectable = False,
      tabindex = \<lparr>items = [], activePointer = None\<rparr>, activeElement = None,
      dispatched = []\<rparr>"

definition colour_names :: "string list" where
  "colour_names =
     [''Blue'', ''Green'', ''Magenta'', ''Orange'', ''Purple'', ''Pink'', ''Red'', ''Yellow'']"

definition colours :: listbox where
  "colours = new_listbox (store_of colour_names)"

definition pressed :: "string \<Rightarrow> ref \<Rightarrow> event" where
  "pressed k t =
     \<lparr>key = k, shiftKey = False, ctrlKey = False, altKey = False, metaKey = False, target = t\<rparr>"

definition clicked :: "ref \<Rightarrow> event" where
  "clicked t = pressed [] t"

text \<open>What a test observes: the texts of a list of options, of the selected options, and
  of the active item.\<close>

definition texts :: "listbox \<Rightarrow> ref list \<Rightarrow> string list" where
  "texts s rs = map (\<lambda>r. textContent (heap s r)) rs"

definition selected_texts :: "listbox \<Rightarrow> string list" where
  "selected_texts s = texts s (selectedOptions s)"

definition visible_texts :: "listbox \<Rightarrow> js_error + string list" where
  "visible_texts s = map_sum id (\<lambda>(vis, s1). texts s1 vis) (visibleOptions s)"

definition active_text :: "listbox \<Rightarrow> string option" where
  "active_text s = map_option (\<lambda>r. textContent (heap s r)) (activeItem s)"

definition focused_text :: "listbox \<Rightarrow> string option" where
  "focused_text s = map_option (\<lambda>r. textContent (heap s r)) (activeElement s)"

definition snapshot :: "listbox \<Rightarrow> bool \<times> ref list \<times> ref list \<times> ref list" where
  "snapshot s = (multiSelectable s, options s, items (tabindex s), selectedOptions s)"

definition selection_and_active :: "listbox \<Rightarrow> string list \<times> string option" where
  "selection_and_active s = (selected_texts s, active_text s)"

definition active_and_focus :: "listbox \<Rightarrow> string option \<times> string option" where
  "active_and_focus s = (active_text s, focused_text s)"

definition options_and_events :: "listbox \<Rightarrow> ref list \<times> notification list" where
  "options_and_events s = (options s, dispatched s)"

definition selection_and_events :: "listbox \<Rightarrow> bool \<times> string list \<times> notification list" where
  "selection_and_events s = (disabled s, selected_texts s, dispatched s)"

definition selection_and_anchor :: "listbox \<Rightarrow> string list \<times> ref option \<times> ref option" where
  "selection_and_anchor s = (selected_texts s, shiftStartingItem s, activeItem s)"

text \<open>One more step after a sequence of operations, when the sequence has returned.\<close>

definition then_do :: "js_error + listbox \<Rightarrow> (listbox \<Rightarrow> js_error + 'a) \<Rightarrow> js_error + 'a" where
  "then_do r f = (case r of Inl e \<Rightarrow> Inl e | Inr s \<Rightarrow> f s)"

text \<open>The eight colours with a filter text, case-sensitive or not, matched anywhere or
  not.\<close>

definition filtered_colours :: "string \<Rightarrow> bool \<Rightarrow> bool \<Rightarrow> listbox" where
  "filtered_colours f cs anywhere =
     colours\<lparr>options := [0, 1, 2, 3, 4, 5, 6, 7], filter_text := f, caseSensitive := cs,
       matchAnywhere := anywhere\<rparr>"

text \<open>Eleven options, for the lists with an index of two digits.\<close>

definition letter_names :: "string list" where
  "letter_names = [''a'', ''b'', ''c'', ''d'', ''e'', ''f'', ''g'', ''h'', ''i'', ''j'', ''k'']"

subsection \<open>The words of the specification\<close>

text \<open>The text matches the filter at its start, or anywhere when match-anywhere is set;
  unless the listbox is case-sensitive the comparison is without case, that is, code unit
  by code unit after the \<open>Canonicalize\<close> of the engine.\<close>

definition spec_matches :: "listbox \<Rightarrow> string \<Rightarrow> bool" where
  "spec_matches s txt =
     (let fold = (if caseSensitive s then id else map (canonicalize (engine s)))
      in if matchAnywhere s then contains (fold txt) (fold (filter_text s))
         else starts_with (fold txt) (fold (filter_text s)))"

text \<open>
  The shift anchor after an operation that returns, in words: in a listbox that is not
  multi-selectable no operation moves it. In a multi-selectable one,
  \<^item> a keydown of the Shift key sets it to the active item (unsets it when there is none);
  \<^item> a keydown of another key, with neither Alt nor Meta held, sets it to the target of
    the range operation it applies: the first item of the tracker for Ctrl with \<open>a\<close> or
    \<open>A\<close> (if there is one), the target of the event for Shift with Enter or Space and no
    Ctrl; every other keydown leaves it;
  \<^item> a keyup with Shift held unsets it when the key is Shift, and else sets it to the target
    of the event when it was set; a keyup without Shift held leaves it;
  \<^item> a click with Shift held sets it to the target of the event when it was set; every
    other click leaves it;
  \<^item> a focus event and the setters leave it.
\<close>

fun anchor_after :: "operation \<Rightarrow> listbox \<Rightarrow> ref option" where
  "anchor_after (Keydown ev) s =
     (if \<not> multiSelectable s then shiftStartingItem s
      else if key ev = ''Shift'' then activeItem s
      else if altKey ev \<or> metaKey ev then shiftStartingItem s
      else if ctrlKey ev
      then (if key ev = ''a'' \<or> key ev = ''A''
            then (case firstItem (tabindex s) of
                    None \<Rightarrow> shiftStartingItem s
                  | Some first \<Rightarrow> Some first)
            else shiftStartingItem s)
      else if shiftKey ev \<and> (key ev = ''Enter'' \<or> key ev = '' '') then Some (target ev)
      else shiftStartingItem s)"
| "anchor_after (Keyup ev) s =
     (if multiSelectable s \<and> shiftKey ev
      then (if key ev = ''Shift'' \<or> shiftStartingItem s = None then None
            else Some (target ev))
      else shiftStartingItem s)"
| "anchor_after (Click ev) s =
     (if multiSelectable s \<and> shiftKey ev \<and> shiftStartingItem s \<noteq> None
      then Some (target ev) else shiftStartingItem s)"
| "anchor_after (OptionFocus ev) s = shiftStartingItem s"
| "anchor_after (SetOptions new) s = shiftStartingItem s"
| "anchor_after (SetFilter f) s = shiftStartingItem s"
| "anchor_after (SetCaseSensitive b) s = shiftStartingItem s"
| "anchor_after (SetDisableFilter b) s = shiftStartingItem s"
| "anchor_after (SetMatchAnywhere b) s = shiftStartingItem s"
| "anchor_after (SetDisabled b) s = shiftStartingItem s"
| "anchor_after (SetMultiSelectable b) s = shiftStartingItem s"
| "anchor_after (SetValue v) s = shiftStartingItem s"

text \<open>The comma-separated text of a list of tokens (\<open>Array.prototype.join(',')\<close>).\<close>

fun join_comma :: "string list \<Rightarrow> string" where
  "join_comma [] = []"
| "join_comma [t] = t"
| "join_comma (t # u # ts) = t @ CHR '','' # join_comma (u # ts)"

section \<open>Properties\<close>

subsection \<open>The store\<close>

lemma lookup_store_put [simp]:
  "lookup (store_put r e st) q = (if q = r then e else lookup st q)"
  by (induction st) auto

subsection \<open>The regular expression of a plain filter\<close>

lemma plain_text_not_caret: "plain_text p \<Longrightarrow> p = c # cs \<Longrightarrow> c \<noteq> CHR ''^''"
  by (auto simp: plain_text_def syntax_char_def)

lemma RegExp_anchored_plain:
  "plain_text p \<Longrightarrow>
   RegExp e (CHR ''^'' # p) fl = Inr (Plain True p (List.member fl CHR ''i''))"
  by (simp add: RegExp_def)

lemma RegExp_plain:
  "plain_text p \<Longrightarrow>
   RegExp e p fl = Inr (Plain False p (List.member fl CHR ''i''))"
proof (cases p)
  case Nil
  then show ?thesis by (simp add: RegExp_def plain_text_def)
next
  case (Cons c cs)
  assume "plain_text p"
  then have "c \<noteq> CHR ''^''" using Cons by (rule plain_text_not_caret)
  then show ?thesis using Cons \<open>plain_text p\<close> by (simp add: RegExp_def)
qed

lemma RegExp_unclosed_group:
  assumes "plain_text (filter (\<lambda>c. c \<noteq> CHR ''('') p)" and "\<not> plain_text p"
  shows "RegExp e p fl = Inl SyntaxError" and "RegExp e (CHR ''^'' # p) fl = Inl SyntaxError"
proof -
  have "p \<noteq> []" using assms(2) by (auto simp: plain_text_def)
  then obtain c cs where p: "p = c # cs" by (cases p) auto
  have "c \<noteq> CHR ''^''" using assms(1) p
    by (auto simp: plain_text_def syntax_char_def split: if_splits)
  then show "RegExp e p fl = Inl SyntaxError" using assms p
    by (simp add: RegExp_def)
  show "RegExp e (CHR ''^'' # p) fl = Inl SyntaxError" using assms
    by (simp add: RegExp_def)
qed

text \<open>Below 128 the comparison without case does not read the engine, and from 128 on it
  never leaves that range.\<close>

lemma canonicalize_ascii:
  "(of_char c :: nat) < 128 \<Longrightarrow>
   canonicalize e c =
     (if 97 \<le> (of_char c :: nat) \<and> (of_char c :: nat) \<le> 122
      then char_of ((of_char c :: nat) - 32) else c)"
  by (simp add: canonicalize_def Let_def)

lemma canonicalize_above:
  "128 \<le> (of_char c :: nat) \<Longrightarrow>
   canonicalize e c = c \<or>
   canonicalize e c = toUpperCase e c \<and> 128 \<le> (of_char (toUpperCase e c) :: nat)"
  by (auto simp add: canonicalize_def Let_def)

lemma canonicalize_example_engine:
  "map (canonicalize example_engine)
     [CHR 0xE9, CHR 0xC9, CHR 0xFF, CHR 0xB5, CHR 0xDF, CHR 0xF7, CHR ''k'', CHR ''{'']
   = [CHR 0xC9, CHR 0xC9, CHR 0xFF, CHR 0xB5, CHR 0xDF, CHR 0xF7, CHR ''K'', CHR ''{'']"
  by code_simp

lemma starts_with_Nil [simp]: "starts_with t [] = True"
  by (cases t) auto

lemma contains_Nil [simp]: "contains t [] = True"
  by (cases t) auto

lemma spec_matches_empty: "filter_text s = [] \<Longrightarrow> spec_matches s txt"
  by (simp add: spec_matches_def Let_def)

lemma filterOptions_plain:
  "plain_text (filter_text s) \<Longrightarrow>
   filterOptions s rs = Inr (filter (\<lambda>r. spec_matches s (textContent (heap s r))) rs)"
proof (induction rs)
  case Nil
  then show ?case by simp
next
  case (Cons r rs)
  have m: "List.member ''i'' CHR ''i''" "\<not> List.member [] CHR ''i''"
    by simp_all
  show ?case
    using Cons
    by (cases "matchAnywhere s"; cases "caseSensitive s")
       (auto simp: RegExp_anchored_plain RegExp_plain regexp_match_def spec_matches_def
          Let_def m)
qed

lemma matchedOptions_plain:
  assumes "plain_text (filter_text s)" "\<not> disableFilter s" "\<not> showAllOptions s"
  shows "matchedOptions s =
     Inr (let m = filter (\<lambda>r. spec_matches s (textContent (heap s r))) (options s)
          in if m = [] then options s else m)"
proof -
  have "filter_text s \<noteq> ''*''"
    using assms(1) by (auto simp: plain_text_def syntax_char_def)
  then show ?thesis
    using assms by (simp add: matchedOptions_def filterOptions_plain Let_def)
qed

lemma matchedOptions_bypass:
  "disableFilter s \<or> filter_text s = ''*'' \<or> showAllOptions s \<Longrightarrow> matchedOptions s = Inr (options s)"
  by (simp add: matchedOptions_def)

lemma matchedOptions_nonempty:
  "matchedOptions s = Inr m \<Longrightarrow> options s \<noteq> [] \<Longrightarrow> m \<noteq> []"
  by (auto simp: matchedOptions_def split: sum.splits if_splits)

lemma options_markOptions [simp]: "options (markOptions m rs s) = options s"
  by (induction rs arbitrary: s) (auto simp: upd_elem_def)

lemma textContent_markOptions [simp]:
  "textContent (heap (markOptions m rs s) r) = textContent (heap s r)"
  by (induction rs arbitrary: s) (auto simp: upd_elem_def)

lemma selected_markOptions [simp]:
  "selected (heap (markOptions m rs s) r) = selected (heap s r)"
  by (induction rs arbitrary: s) (auto simp: upd_elem_def)

subsection \<open>The default sort on a pair of indices\<close>

lemma of_char_digit_char: "d < 10 \<Longrightarrow> (of_char (digit_char d) :: nat) = 48 + d"
  by (simp add: digit_char_def)

lemma digits_small: "n < 10 \<Longrightarrow> digits n = [digit_char n]"
  by (simp add: digits.simps)

lemma digits_hd: "0 < n \<Longrightarrow> \<exists>d cs. digits n = digit_char d # cs \<and> 1 \<le> d \<and> d \<le> 9"
proof (induction n rule: digits.induct)
  case (1 n)
  show ?case
  proof (cases "n < 10")
    case True
    with "1.prems" show ?thesis by (auto simp: digits_small)
  next
    case False
    then have "0 < n div 10" by simp
    with "1.IH" False obtain d cs where "digits (n div 10) = digit_char d # cs" "1 \<le> d" "d \<le> 9"
      by blast
    with False show ?thesis by (subst digits.simps) auto
  qed
qed

lemma js_string_less_irrefl: "\<not> js_string_less x x"
  by (induction x) auto

lemma js_sort_pair_zero: "js_sort_pair (int k) 0 = (0, int k)"
proof (cases "k = 0")
  case True
  then show ?thesis by (simp add: js_sort_pair_def js_string_less_irrefl)
next
  case False
  then obtain d cs where d: "digits k = digit_char d # cs" "1 \<le> d" "d \<le> 9"
    using digits_hd [of k] by auto
  have "js_string_less (to_string 0) (to_string (int k))"
    using d by (simp add: to_string_def digits_small of_char_digit_char)
  then show ?thesis by (simp add: js_sort_pair_def)
qed

lemma js_sort_pair_one_digit:
  "a < 10 \<Longrightarrow> b < 10 \<Longrightarrow> js_sort_pair (int a) (int b) = (int (min a b), int (max a b))"
  by (auto simp: js_sort_pair_def to_string_def digits_small of_char_digit_char min_def max_def)

subsection \<open>Indices and slices\<close>

lemma indexOf_ge: "- 1 \<le> indexOf xs x"
  by (induction xs) (auto simp: Let_def)

lemma indexOf_absent: "x \<notin> set xs \<Longrightarrow> indexOf xs x = - 1"
  by (induction xs) (auto simp: Let_def)

lemma indexOf_nth: "distinct xs \<Longrightarrow> i < length xs \<Longrightarrow> indexOf xs (xs ! i) = int i"
proof (induction xs arbitrary: i)
  case Nil
  then show ?case by simp
next
  case (Cons y ys)
  show ?case
  proof (cases i)
    case 0
    then show ?thesis by simp
  next
    case (Suc j)
    with Cons.prems have "ys ! j \<noteq> y" "indexOf ys (ys ! j) = int j"
      using Cons.IH [of j] by auto
    with Suc show ?thesis by (simp add: Let_def)
  qed
qed

lemma indexOf_map_Some [simp]: "indexOf (map Some xs) (Some x) = indexOf xs x"
  by (induction xs) (auto simp: Let_def)

lemma indexOf_map_Some_None [simp]: "indexOf (map Some xs) None = - 1"
  by (induction xs) (auto simp: Let_def)

lemma js_slice_range:
  "i \<le> j \<Longrightarrow> j < length xs \<Longrightarrow> js_slice xs (int i) (int j + 1) = take (Suc j - i) (drop i xs)"
  by (simp add: js_slice_def Let_def min_def nat_diff_distrib nat_add_distrib Suc_diff_le)

lemma js_slice_all: "xs \<noteq> [] \<Longrightarrow> js_slice xs 0 (int (length xs - 1) + 1) = xs"
  using js_slice_range [of 0 "length xs - 1" xs] by simp

subsection \<open>Loops over the options\<close>

lemma forEach_selected_frame:
  "options (forEach_selected f rs s) = options s \<and>
   tabindex (forEach_selected f rs s) = tabindex s \<and>
   multiSelectable (forEach_selected f rs s) = multiSelectable s \<and>
   dispatched (forEach_selected f rs s) = dispatched s \<and>
   shiftStartingItem (forEach_selected f rs s) = shiftStartingItem s \<and>
   ariaActivedescendant (forEach_selected f rs s) = ariaActivedescendant s \<and>
   activeElement (forEach_selected f rs s) = activeElement s"
  by (induction rs arbitrary: s) (simp_all add: upd_elem_def)

lemma forEach_selected_fields [simp]:
  "options (forEach_selected f rs s) = options s"
  "tabindex (forEach_selected f rs s) = tabindex s"
  "multiSelectable (forEach_selected f rs s) = multiSelectable s"
  "dispatched (forEach_selected f rs s) = dispatched s"
  "shiftStartingItem (forEach_selected f rs s) = shiftStartingItem s"
  "ariaActivedescendant (forEach_selected f rs s) = ariaActivedescendant s"
  "activeElement (forEach_selected f rs s) = activeElement s"
  by (simp_all add: forEach_selected_frame)

lemma forEach_selected_const:
  "heap (forEach_selected (\<lambda>r e. b) rs s) q =
     (if q \<in> set rs then (heap s q)\<lparr>selected := b\<rparr> else heap s q)"
  by (induction rs arbitrary: s) (auto simp: upd_elem_def)

subsection \<open>Visible options\<close>

text \<open>
  C1 (the visible options are never empty while there are options). The getter applies
  the filter text as a regular expression without escaping it. For the eight colours and
  the filter text \<open>(\<close>, the pattern \<open>^(\<close> has a group that is never closed: the getter
  throws \<open>SyntaxError\<close> and returns no list at all, and so does the assignment of that
  filter text through the setter.
\<close>

theorem visibleOptions_unclosed_group_throws:
  "visible_texts (filtered_colours ''('' False False) = Inl SyntaxError \<and>
   visible_texts (filtered_colours ''('' True True) = Inl SyntaxError \<and>
   map_sum id selected_texts (run [SetOptions [0, 1, 2, 3, 4, 5, 6, 7], SetFilter ''(''] colours)
     = Inl SyntaxError"
  by code_simp

text \<open>When the filter is bypassed, or its text has no syntax character, the getter returns,
  and its list is not empty when there are options.\<close>

lemma visibleOptions_returns_nonempty:
  assumes "disableFilter s \<or> filter_text s = ''*'' \<or> showAllOptions s \<or> plain_text (filter_text s)"
    and "options s \<noteq> []"
  shows "\<exists>vis s1. visibleOptions s = Inr (vis, s1) \<and> vis \<noteq> []"
proof -
  have "\<exists>m. matchedOptions s = Inr m"
  proof (cases "disableFilter s \<or> filter_text s = ''*'' \<or> showAllOptions s")
    case True
    then show ?thesis by (simp add: matchedOptions_bypass)
  next
    case False
    with assms(1) show ?thesis by (simp add: matchedOptions_plain)
  qed
  then obtain m where m: "matchedOptions s = Inr m" ..
  have "m \<noteq> []" using m assms(2) by (rule matchedOptions_nonempty)
  with m show ?thesis by (simp add: visibleOptions_def)
qed

text \<open>
  C6, counterexample. With the eight colours, the filter text \<open>r\<close> and case-sensitive
  matching, no option matches the filter at the start of its text, and the visible
  options are all eight options, not the empty list of the matching ones.
\<close>

theorem visibleOptions_scenario_C:
  "visible_texts (filtered_colours ''r'' True False)
     = Inr [''Blue'', ''Green'', ''Magenta'', ''Orange'', ''Purple'', ''Pink'', ''Red'', ''Yellow'']
   \<and> map (spec_matches (filtered_colours ''r'' True False))
         [''Blue'', ''Green'', ''Magenta'', ''Orange'', ''Purple'', ''Pink'', ''Red'', ''Yellow'']
     = [False, False, False, False, False, False, False, False]"
  by code_simp

text \<open>
  C6, as amended. For a filter text that is not empty and has no syntax character of a
  regular expression (so it is not \<open>*\<close>), with filtering enabled and the show-all flag
  unset, the visible options are the options of the full list, in their order, whose text
  matches the filter at its start (anywhere when match-anywhere is set) when there is at
  least one, and the full list when there is none; the getter also sets the
  \<open>hidden-by-filter\<close> marks. Unless the listbox is case-sensitive the texts are compared
  without case as the flag \<open>i\<close> of the engine compares them, code unit by code unit after
  \<open>Canonicalize\<close>: on every engine the letters \<open>a\<close> to \<open>z\<close> equal \<open>A\<close> to \<open>Z\<close>, and a code
  unit from 128 on equals those with the same upper case.
\<close>

theorem visibleOptions_plain_filter:
  assumes "filter_text s \<noteq> []" and "plain_text (filter_text s)"
    and "\<not> disableFilter s" and "\<not> showAllOptions s"
  shows "visibleOptions s =
     (let m = filter (\<lambda>r. spec_matches s (textContent (heap s r))) (options s);
          vis = (if m = [] then options s else m)
      in Inr (vis, markOptions vis (options s) s))"
  using assms by (simp add: visibleOptions_def matchedOptions_plain Let_def)

lemma texts_markOptions [simp]: "texts (markOptions m rs s) xs = texts s xs"
  by (simp add: texts_def)

text \<open>
  C6, witness: the eight colours with the filter text \<open>r\<close> and match-anywhere show Green,
  Orange, Purple and Red.
\<close>

theorem visibleOptions_plain_filter_witness:
  "visible_texts (filtered_colours ''r'' False True)
     = Inr [''Green'', ''Orange'', ''Purple'', ''Red'']"
proof -
  let ?s = "filtered_colours ''r'' False True"
  have h: "filter_text ?s \<noteq> []" "plain_text (filter_text ?s)" "\<not> disableFilter ?s"
    "\<not> showAllOptions ?s"
    by (simp_all add: filtered_colours_def colours_def new_listbox_def plain_text_def
        syntax_char_def)
  have m: "filter (\<lambda>r. spec_matches ?s (textContent (heap ?s r))) (options ?s) = [1, 3, 4, 6]"
    by code_simp
  have t: "texts ?s [1, 3, 4, 6] = [''Green'', ''Orange'', ''Purple'', ''Red'']"
    by code_simp
  have "visibleOptions ?s =
      (let m = [1, 3, 4, 6]; vis = (if m = [] then options ?s else m)
       in Inr (vis, markOptions vis (options ?s) ?s))"
    using visibleOptions_plain_filter [OF h] by (simp only: m)
  then have v: "visibleOptions ?s = Inr ([1, 3, 4, 6], markOptions [1, 3, 4, 6] (options ?s) ?s)"
    by (simp only: Let_def list.simps if_False)
  show ?thesis
    by (simp only: visible_texts_def v map_sum.simps prod.case texts_markOptions t id_apply)
qed

text \<open>The comparison without case goes beyond \<open>a\<close> to \<open>z\<close>: of two options whose texts are
  \<open>Ecole\<close> with an acute accent on the capital and \<open>Blue\<close>, the filter text of the one
  small letter \<open>e\<close> with an acute accent shows the first only.\<close>

lemma visibleOptions_accented_letter:
  "visible_texts ((new_listbox (store_of [CHR 0xC9 # ''cole'', ''Blue'']))
     \<lparr>options := [0, 1], filter_text := [CHR 0xE9]\<rparr>) = Inr [CHR 0xC9 # ''cole'']"
  by code_simp

subsection \<open>Validation of a comma-separated text\<close>

lemma split_comma_not_Nil [simp]: "split_comma cs \<noteq> []"
  by (induction cs) (auto split: list.splits)

lemma split_comma_no_comma: "CHR '','' \<notin> set t \<Longrightarrow> split_comma t = [t]"
  by (induction t) (auto split: list.splits)

lemma split_comma_append:
  "CHR '','' \<notin> set t \<Longrightarrow> split_comma (t @ CHR '','' # rest) = t # split_comma rest"
  by (induction t) (auto split: list.splits)

lemma split_comma_join_comma:
  "ts \<noteq> [] \<Longrightarrow> \<forall>t\<in>set ts. CHR '','' \<notin> set t \<Longrightarrow> split_comma (join_comma ts) = ts"
  by (induction ts rule: join_comma.induct) (auto simp: split_comma_no_comma split_comma_append)

lemma join_comma_split_comma: "join_comma (split_comma cs) = cs"
proof (induction cs)
  case Nil
  then show ?case by simp
next
  case (Cons c cs)
  then show ?case
    by (cases "split_comma cs"; cases "tl (split_comma cs)") (auto split: list.splits)
qed

lemma split_comma_tokens: "t \<in> set (split_comma cs) \<Longrightarrow> CHR '','' \<notin> set t"
  by (induction cs arbitrary: t) (auto split: list.splits if_splits)

text \<open>
  C8, counterexample. \<open>isValid(null)\<close> is true, not false: the absent text has no token.
  And \<open>isValid('')\<close> is true when an option has an empty text.
\<close>

theorem isValid_null_and_empty_text:
  "isValid None (filtered_colours [] False False)
   \<and> isValid (Some []) ((new_listbox (store_of [[]]))\<lparr>options := [0]\<rparr>)"
  by code_simp

text \<open>
  C8, as amended. \<open>isValid\<close> never throws. On the absent text it is true. On the text that
  joins the tokens \<open>ts\<close> with commas (at least one token, none with a comma in it: every
  text is such a join, of its own pieces, by \<open>join_comma_split_comma\<close>) it is true exactly
  when every token is the text of some option; so on the empty text, whose one token is
  empty, it is true exactly when some option has an empty text.
\<close>

theorem isValid_tokens:
  assumes "ts \<noteq> []" and "\<forall>t\<in>set ts. CHR '','' \<notin> set t"
  shows "isValid None s \<and>
    (isValid (Some (join_comma ts)) s \<longleftrightarrow>
       (\<forall>t\<in>set ts. \<exists>r\<in>set (options s). textContent (heap s r) = t))"
  using assms
  by (auto simp: isValid_def split_comma_join_comma list_all_iff)

text \<open>C8, witness: \<open>Blue,Red\<close> is valid for the eight colours, \<open>Blue,,Red\<close> is not.\<close>

theorem isValid_tokens_witness:
  "isValid (Some ''Blue,Red'') (colours\<lparr>options := [0, 1, 2, 3, 4, 5, 6, 7]\<rparr>)
   \<and> \<not> isValid (Some ''Blue,,Red'') (colours\<lparr>options := [0, 1, 2, 3, 4, 5, 6, 7]\<rparr>)"
proof -
  let ?s = "colours\<lparr>options := [0, 1, 2, 3, 4, 5, 6, 7]\<rparr>"
  have a: "(\<forall>t\<in>set [''Blue'', ''Red'']. \<exists>r\<in>set (options ?s). textContent (heap ?s r) = t)"
    by code_simp
  have b: "\<not> (\<forall>t\<in>set [''Blue'', [], ''Red'']. \<exists>r\<in>set (options ?s). textContent (heap ?s r) = t)"
    by code_simp
  show ?thesis
    using isValid_tokens [of "[''Blue'', ''Red'']" ?s] isValid_tokens [of "[''Blue'', [], ''Red'']" ?s]
      a b
    by simp
qed

subsection \<open>Select all\<close>

lemma indexOf_hd: "xs \<noteq> [] \<Longrightarrow> indexOf xs (hd xs) = 0"
  by (cases xs) auto

lemma indexOf_last: "distinct xs \<Longrightarrow> xs \<noteq> [] \<Longrightarrow> indexOf xs (last xs) = int (length xs - 1)"
  using indexOf_nth [of xs "length xs - 1"] by (simp add: last_conv_nth)

lemma filter_not_empty_iff: "(filter (\<lambda>r. \<not> P r) xs = []) = list_all P xs"
  by (induction xs) auto

lemma updateMultiselect_whole_list:
  assumes "multiSelectable s" and "options s \<noteq> []" and "distinct (options s)"
  shows "\<exists>s1. updateMultiselect (hd (options s)) (Some (last (options s))) True s = Inr s1 \<and>
     options s1 = options s \<and> tabindex s1 = tabindex s \<and> multiSelectable s1 \<and>
     dispatched s1 = dispatched s \<and>
     (\<forall>r\<in>set (options s).
        selected (heap s1 r) = (\<not> list_all (\<lambda>q. selected (heap s q)) (options s)))"
proof -
  have sorted: "js_sort_pair (indexOf (options s) (last (options s)))
      (indexOf (options s) (hd (options s))) = (0, int (length (options s) - 1))"
    using assms by (simp add: indexOf_hd indexOf_last js_sort_pair_zero)
  have slice: "js_slice (options s) 0 (int (length (options s) - Suc 0) + 1) = options s"
    using js_slice_all [OF assms(2)] by simp
  show ?thesis
    using assms(1,2)
    by (simp add: updateMultiselect_def sorted slice filter_not_empty_iff
        forEach_selected_const Let_def)
qed

lemma ctrlA_step:
  assumes "multiSelectable s" and "options s \<noteq> []" and "distinct (options s)"
    and "firstItem (tabindex s) = Some (hd (options s))"
    and "lastItem (tabindex s) = Some (last (options s))"
    and "key ev = ''a'' \<or> key ev = ''A''" and "ctrlKey ev" and "\<not> altKey ev" and "\<not> metaKey ev"
  shows "\<exists>s1. onOptionKeydown ev s = Inr s1 \<and> options s1 = options s \<and>
     tabindex s1 = tabindex s \<and> multiSelectable s1 \<and>
     dispatched s1 = dispatched s @ [Change] \<and>
     (\<forall>r\<in>set (options s).
        selected (heap s1 r) = (\<not> list_all (\<lambda>q. selected (heap s q)) (options s)))"
proof -
  let ?s0 = "s\<lparr>showAllOptions := False\<rparr>"
  have k: "key ev \<noteq> ''Shift''" using assms(6) by auto
  have pre: "multiSelectable ?s0" "options ?s0 \<noteq> []" "distinct (options ?s0)"
    using assms(1-3) by simp_all
  obtain s1 where um: "updateMultiselect (hd (options s)) (Some (last (options s))) True ?s0 = Inr s1"
    "options s1 = options s" "tabindex s1 = tabindex s" "multiSelectable s1"
    "dispatched s1 = dispatched s"
    "\<forall>r\<in>set (options s).
        selected (heap s1 r) = (\<not> list_all (\<lambda>q. selected (heap s q)) (options s))"
    using updateMultiselect_whole_list [OF pre] by auto
  have "onOptionKeydown ev s = Inr (fireChange s1)"
    using assms k um(1,4)
    by (auto simp: onOptionKeydown_def Let_def keydown_finish_def get_value_def)
  then show ?thesis
    using um by (simp add: fireChange_def)
qed

text \<open>
  Select all, when no filter hides the ends of the list. In a multi-selectable listbox
  whose options are distinct and not empty, and whose first and last option are the first
  and last item of the focus tracker, a keydown of \<open>a\<close> or \<open>A\<close> with Ctrl and without Alt or
  Meta returns and sets every option of the full list selected when some option was not
  selected, and every option unselected when all were selected; pressed a second time it
  undoes the first, so two presses on a list with nothing selected leave nothing selected.
\<close>

lemma ctrlA_selects_or_deselects_all:
  assumes "multiSelectable s" and "options s \<noteq> []" and "distinct (options s)"
    and "firstItem (tabindex s) = Some (hd (options s))"
    and "lastItem (tabindex s) = Some (last (options s))"
    and "key ev = ''a'' \<or> key ev = ''A''" and "ctrlKey ev" and "\<not> altKey ev" and "\<not> metaKey ev"
  shows "\<exists>s1 s2. onOptionKeydown ev s = Inr s1 \<and> onOptionKeydown ev s1 = Inr s2 \<and>
     options s1 = options s \<and> options s2 = options s \<and>
     (\<forall>r\<in>set (options s).
        selected (heap s1 r) = (\<not> list_all (\<lambda>q. selected (heap s q)) (options s))) \<and>
     (\<forall>r\<in>set (options s).
        selected (heap s2 r) = list_all (\<lambda>q. selected (heap s q)) (options s))"
proof -
  obtain s1 where s1: "onOptionKeydown ev s = Inr s1" "options s1 = options s"
    "tabindex s1 = tabindex s" "multiSelectable s1"
    "\<forall>r\<in>set (options s).
        selected (heap s1 r) = (\<not> list_all (\<lambda>q. selected (heap s q)) (options s))"
    using ctrlA_step [OF assms] by blast
  have pre: "options s1 \<noteq> []" "distinct (options s1)"
    "firstItem (tabindex s1) = Some (hd (options s1))"
    "lastItem (tabindex s1) = Some (last (options s1))"
    using assms(2-5) s1(2,3) by simp_all
  obtain s2 where s2: "onOptionKeydown ev s1 = Inr s2" "options s2 = options s1"
    "\<forall>r\<in>set (options s1).
        selected (heap s2 r) = (\<not> list_all (\<lambda>q. selected (heap s1 q)) (options s1))"
    using ctrlA_step [OF s1(4) pre assms(6-9)] by blast
  have "list_all (\<lambda>q. selected (heap s1 q)) (options s1)
      = (\<not> list_all (\<lambda>q. selected (heap s q)) (options s))"
    using s1(2,5) assms(2) by (cases "options s") (auto simp: list_all_iff)
  with s1 s2 show ?thesis by auto
qed


text \<open>The eight colours in a multi-selectable listbox, as the operations leave them.\<close>

lemma colours_multi_select: "map_sum id snapshot (run [SetMultiSelectable True, SetOptions [0, 1, 2, 3, 4, 5, 6, 7]] colours) = Inr (True, [0, 1, 2, 3, 4, 5, 6, 7], [0, 1, 2, 3, 4, 5, 6, 7], [])"
  by code_simp

text \<open>On the eight colours, nothing selected and no filter, the first Ctrl+A selects all
  eight options and the second leaves none selected.\<close>

lemma ctrlA_on_colours:
  "\<exists>s s1 s2. run [SetMultiSelectable True, SetOptions [0, 1, 2, 3, 4, 5, 6, 7]] colours = Inr s \<and>
     onOptionKeydown ((pressed ''a'' 0)\<lparr>ctrlKey := True\<rparr>) s = Inr s1 \<and>
     onOptionKeydown ((pressed ''a'' 0)\<lparr>ctrlKey := True\<rparr>) s1 = Inr s2 \<and>
     selectedOptions s = [] \<and> selectedOptions s1 = options s \<and> selectedOptions s2 = []"
proof -
  let ?ev = "(pressed ''a'' 0)\<lparr>ctrlKey := True\<rparr>"
  obtain s where s: "run [SetMultiSelectable True, SetOptions [0, 1, 2, 3, 4, 5, 6, 7]] colours = Inr s"
    using colours_multi_select by (cases "run [SetMultiSelectable True, SetOptions [0, 1, 2, 3, 4, 5, 6, 7]] colours") auto
  with colours_multi_select have f: "multiSelectable s" "options s = [0, 1, 2, 3, 4, 5, 6, 7]"
    "items (tabindex s) = [0, 1, 2, 3, 4, 5, 6, 7]" "selectedOptions s = []"
    by (simp_all add: snapshot_def)
  have pre: "options s \<noteq> []" "distinct (options s)"
    "firstItem (tabindex s) = Some (hd (options s))"
    "lastItem (tabindex s) = Some (last (options s))"
    by (simp_all add: f firstItem_def lastItem_def first_of_def last_of_def)
  have ev: "key ?ev = ''a'' \<or> key ?ev = ''A''" "ctrlKey ?ev" "\<not> altKey ?ev" "\<not> metaKey ?ev"
    by (simp_all add: pressed_def)
  have none: "\<not> list_all (\<lambda>q. selected (heap s q)) (options s)"
    using f(4) f(2) by (auto simp: selectedOptions_def filter_empty_conv)
  obtain s1 s2 where r: "onOptionKeydown ?ev s = Inr s1" "onOptionKeydown ?ev s1 = Inr s2"
    "options s1 = options s" "options s2 = options s"
    "\<forall>r\<in>set (options s). selected (heap s1 r)"
    "\<forall>r\<in>set (options s). \<not> selected (heap s2 r)"
    using ctrlA_selects_or_deselects_all [OF f(1) pre ev] none by auto
  have "selectedOptions s1 = options s" "selectedOptions s2 = []"
    using r(3-6) by (simp_all add: selectedOptions_def)
  with s r(1,2) f(4) show ?thesis by blast
qed

text \<open>
  C4 (Ctrl+A selects every option of the full list, or deselects every option). The range
  of Ctrl+A runs between the first and the last item of the focus tracker, which holds the
  visible options. With the eight colours, nothing selected and the filter text \<open>r\<close>, the
  tracker holds Red alone: Ctrl+A selects Red, and the seven other options of the full
  list stay unselected. With match-anywhere the tracker holds Green, Orange, Purple and
  Red: Ctrl+A selects the six options from Green to Red, the hidden Magenta and Pink among
  them, and neither Blue nor Yellow.
\<close>

theorem ctrlA_with_filter:
  "map_sum id selected_texts
     (run [SetMultiSelectable True, SetOptions [0, 1, 2, 3, 4, 5, 6, 7], SetFilter ''r'',
           Keydown ((pressed ''a'' 6)\<lparr>ctrlKey := True\<rparr>)] colours)
   = Inr [''Red''] \<and>
   map_sum id selected_texts
     (run [SetMultiSelectable True, SetOptions [0, 1, 2, 3, 4, 5, 6, 7], SetFilter ''r'',
           SetMatchAnywhere True, Keydown ((pressed ''a'' 6)\<lparr>ctrlKey := True\<rparr>)] colours)
   = Inr [''Green'', ''Magenta'', ''Orange'', ''Purple'', ''Pink'', ''Red'']"
  by code_simp

subsection \<open>What the handlers leave unchanged\<close>

text \<open>The getter \<open>visibleOptions\<close>, the update of the active descendant and the
  notifications change neither the anchor nor the selected state of an option.\<close>

lemma markOptions_anchor [simp]:
  "shiftStartingItem (markOptions m rs s) = shiftStartingItem s"
  by (induction rs arbitrary: s) (auto simp: upd_elem_def)

lemma markOptions_frame [simp]:
  "tabindex (markOptions m rs s) = tabindex s"
  "multiSelectable (markOptions m rs s) = multiSelectable s"
  "ariaActivedescendant (markOptions m rs s) = ariaActivedescendant s"
  "dispatched (markOptions m rs s) = dispatched s"
  by (induction rs arbitrary: s) (auto simp: upd_elem_def)

lemma visibleOptions_keeps:
  assumes "visibleOptions s = Inr (vis, s1)"
  shows "shiftStartingItem s1 = shiftStartingItem s" and "selected (heap s1 r) = selected (heap s r)"
    and "options s1 = options s" and "multiSelectable s1 = multiSelectable s"
    and "tabindex s1 = tabindex s"
  using assms by (auto simp: visibleOptions_def split: sum.splits)

lemma updateActiveDescendant_loop_keeps:
  "updateActiveDescendant_loop rs s = Inr s1 \<Longrightarrow>
   shiftStartingItem s1 = shiftStartingItem s \<and> selected (heap s1 r) = selected (heap s r) \<and>
   multiSelectable s1 = multiSelectable s"
proof (induction rs arbitrary: s)
  case Nil
  then show ?case by simp
next
  case (Cons a rs)
  show ?case
  proof (cases "activePointer (tabindex s) = Some a")
    case False
    with Cons.prems Cons.IH show ?thesis
      by (fastforce simp: upd_elem_def split: if_splits)
  next
    case True
    with Cons.prems obtain vis s0 where v: "visibleOptions s = Inr (vis, s0)"
      by (auto split: sum.splits)
    note k = visibleOptions_keeps [OF v]
    from Cons.prems True v Cons.IH k(1,4) k(2) [of r] show ?thesis
      by (fastforce simp: upd_elem_def split: if_splits)
  qed
qed

lemma updateActiveDescendant_keeps:
  "updateActiveDescendant s = Inr s1 \<Longrightarrow>
   shiftStartingItem s1 = shiftStartingItem s \<and> selected (heap s1 r) = selected (heap s r) \<and>
   multiSelectable s1 = multiSelectable s"
  unfolding updateActiveDescendant_def by (rule updateActiveDescendant_loop_keeps)

lemma focusOnItem_keeps [simp]:
  "shiftStartingItem (focusOnItem t s) = shiftStartingItem s"
  "store (focusOnItem t s) = store s"
  "multiSelectable (focusOnItem t s) = multiSelectable s"
  by (simp_all add: focusOnItem_def)

lemma fireChange_keeps [simp]:
  "shiftStartingItem (fireChange s) = shiftStartingItem s"
  "store (fireChange s) = store s"
  "multiSelectable (fireChange s) = multiSelectable s"
  "tabindex (fireChange s) = tabindex s"
  "options (fireChange s) = options s"
  by (simp_all add: fireChange_def)

lemma fireInput_keeps [simp]:
  "shiftStartingItem (fireInput s) = shiftStartingItem s"
  "store (fireInput s) = store s"
  by (simp_all add: fireInput_def)

lemma keydown_finish_keeps [simp]:
  "shiftStartingItem (keydown_finish v f s) = shiftStartingItem s"
  "store (keydown_finish v f s) = store s"
  by (simp_all add: keydown_finish_def Let_def split: option.splits)

lemma updateMultiselect_anchor:
  "updateMultiselect cur refItem ctrl s = Inr s1 \<Longrightarrow>
   shiftStartingItem s1 = (if multiSelectable s then Some cur else shiftStartingItem s) \<and>
   multiSelectable s1 = multiSelectable s \<and> tabindex s1 = tabindex s \<and> options s1 = options s"
  by (auto simp: updateMultiselect_def Let_def split: if_splits sum.splits prod.splits option.splits)

lemma toggle_selected_keeps [simp]:
  "shiftStartingItem (toggle_selected r s) = shiftStartingItem s"
  by (simp add: toggle_selected_def upd_elem_def)

lemma updateSingleselect_keeps [simp]:
  "shiftStartingItem (updateSingleselect s) = shiftStartingItem s"
  by (simp add: updateSingleselect_def)

lemma nextMatchingItem_keeps:
  "nextMatchingItem k s = Inr (f, s1) \<Longrightarrow> shiftStartingItem s1 = shiftStartingItem s"
  by (auto simp: nextMatchingItem_def Let_def split: sum.splits dest: visibleOptions_keeps(1))

lemma onOptionClick_shift:
  assumes "multiSelectable s" and "shiftKey ev" and "shiftStartingItem s = Some a"
    and "onOptionClick ev s = Inr s'"
  shows "\<exists>s1. updateMultiselect (target ev) (Some a) False s = Inr s1 \<and>
           (\<forall>r. selected (heap s' r) = selected (heap s1 r)) \<and>
           shiftStartingItem s' = Some (target ev)"
proof -
  from assms obtain s1 where u: "updateMultiselect (target ev) (Some a) False s = Inr s1"
    by (auto simp: onOptionClick_def Let_def split: sum.splits)
  note m = updateMultiselect_anchor [OF u]
  show ?thesis
  proof (cases "Some (target ev) \<noteq> activePointer (tabindex s1)")
    case False
    with assms u m show ?thesis
      by (auto simp: onOptionClick_def Let_def split: sum.splits if_splits)
  next
    case True
    with assms u m obtain s2 where
      d: "updateActiveDescendant (focusOnItem (target ev) (fireChange s1)) = Inr s2"
      and r: "s' = (if strict_neq (get_value s) (get_value s2) then fireChange s2 else s2)"
      by (auto simp: onOptionClick_def Let_def split: sum.splits if_splits)
    have "shiftStartingItem s2 = Some (target ev)"
      and "\<forall>r. selected (heap s2 r) = selected (heap s1 r)"
      using updateActiveDescendant_keeps [OF d] m assms(1) by simp_all
    with u r show ?thesis by auto
  qed
qed

lemma onOptionKeyup_shift:
  assumes "multiSelectable s" and "shiftKey ev" and "shiftStartingItem s = Some a"
    and "onOptionKeyup ev s = Inr s'"
  shows "\<exists>s1. updateMultiselect (target ev) (Some a) False s = Inr s1 \<and> store s' = store s1 \<and>
           shiftStartingItem s' = (if key ev = ''Shift'' then None else Some (target ev))"
  using assms
  by (auto simp: onOptionKeyup_def split: sum.splits if_splits dest: updateMultiselect_anchor)

lemma onOptionKeydown_shift_enter:
  assumes "multiSelectable s" and "shiftKey ev" and "\<not> ctrlKey ev" and "\<not> altKey ev"
    and "\<not> metaKey ev" and "key ev = ''Enter'' \<or> key ev = '' ''"
    and "onOptionKeydown ev s = Inr s'"
  shows "\<exists>s1. updateMultiselect (target ev) (activeItem s) False (s\<lparr>showAllOptions := False\<rparr>) = Inr s1 \<and>
           store s' = store s1 \<and> shiftStartingItem s' = Some (target ev)"
proof -
  have k: "key ev \<noteq> ''Shift''" "\<not> word_key (key ev)"
    using assms(6) by (auto simp: word_key_def word_char_def)
  have a: "activeItem (s\<lparr>showAllOptions := False\<rparr>) = activeItem s"
    by (simp add: activeItem_def split: list.splits)
  show ?thesis
    using assms k a
    by (auto simp: onOptionKeydown_def Let_def split: sum.splits dest: updateMultiselect_anchor)
qed

lemma annotate_keeps [simp]:
  "shiftStartingItem (annotate n i rs s) = shiftStartingItem s"
  by (induction rs arbitrary: s i) (auto simp: upd_elem_def)

lemma onFilterChange_keeps:
  "onFilterChange s = Inr s1 \<Longrightarrow> shiftStartingItem s1 = shiftStartingItem s"
  by (auto simp: onFilterChange_def Let_def split: if_splits sum.splits
      dest: visibleOptions_keeps(1))

lemma set_options_keeps:
  "set_options new s = Inr s1 \<Longrightarrow> shiftStartingItem s1 = shiftStartingItem s"
  by (auto simp: set_options_def split: if_splits sum.splits dest!: visibleOptions_keeps(1))

lemma set_value_keeps [simp]: "shiftStartingItem (set_value v s) = shiftStartingItem s"
  by (simp add: set_value_def Let_def)

lemma onOptionFocus_keeps:
  "onOptionFocus ev s = Inr s1 \<Longrightarrow> shiftStartingItem s1 = shiftStartingItem s"
  by (auto simp: onOptionFocus_def dest!: updateActiveDescendant_keeps split: if_splits)

lemma onOptionClick_anchor:
  assumes "onOptionClick ev s = Inr s1"
  shows "shiftStartingItem s1 = anchor_after (Click ev) s"
proof -
  from assms obtain s0 where
    sel: "(if multiSelectable s
           then (if \<not> shiftKey ev then Inr (toggle_selected (target ev) s)
                 else (case shiftStartingItem s of
                         None \<Rightarrow> Inr s
                       | Some a \<Rightarrow>
                           (case updateMultiselect (target ev) (Some a) False s of
                              Inl e \<Rightarrow> Inl e
                            | Inr s1 \<Rightarrow> Inr (fireChange s1))))
           else Inr (forEach_selected (\<lambda>r e. r = target ev) (options s) s)) = Inr s0"
    and rest: "(case (if Some (target ev) \<noteq> activePointer (tabindex s0)
                  then updateActiveDescendant (focusOnItem (target ev) s0)
                  else Inr s0) of
              Inl e \<Rightarrow> Inl e
            | Inr s2 \<Rightarrow> Inr (if strict_neq (get_value s) (get_value s2) then fireChange s2 else s2))
            = Inr s1"
    by (auto simp: onOptionClick_def Let_def split: sum.splits)
  from sel have "shiftStartingItem s0 = anchor_after (Click ev) s"
    by (auto split: if_splits sum.splits option.splits dest!: updateMultiselect_anchor)
  with rest show ?thesis
    by (auto split: if_splits sum.splits dest!: updateActiveDescendant_keeps)
qed

lemma onOptionKeyup_anchor:
  assumes "onOptionKeyup ev s = Inr s1"
  shows "shiftStartingItem s1 = anchor_after (Keyup ev) s"
  using assms
  by (auto simp: onOptionKeyup_def split: if_splits sum.splits option.splits
      dest!: updateMultiselect_anchor)

lemma activeItem_showAllOptions [simp]:
  "activeItem (s\<lparr>showAllOptions := b\<rparr>) = activeItem s"
  by (simp add: activeItem_def split: list.splits)

lemma onOptionKeydown_anchor:
  assumes "onOptionKeydown ev s = Inr s1"
  shows "shiftStartingItem s1 = anchor_after (Keydown ev) s"
proof -
  have k: "key ev = ''Shift'' \<Longrightarrow> \<not> word_key (key ev)"
    "key ev = ''Enter'' \<or> key ev = '' '' \<Longrightarrow> \<not> word_key (key ev)"
    by (auto simp: word_key_def word_char_def)
  show ?thesis
    using assms k
    by (auto simp: onOptionKeydown_def Let_def
        split: if_splits sum.splits option.splits prod.splits
        dest!: updateMultiselect_anchor nextMatchingItem_keeps)
qed

lemma onOptionKeydown_shift_key:
  assumes "onOptionKeydown ev s = Inr s1" and "key ev = ''Shift''" and "multiSelectable s"
  shows "shiftStartingItem s1 = activeItem s"
  using onOptionKeydown_anchor [OF assms(1)] assms(2,3) by simp

lemma handle_anchor:
  assumes "handle e s = Inr s1"
  shows "shiftStartingItem s1 = anchor_after e s"
proof (cases e)
  case (Keydown ev)
  with assms show ?thesis by (simp add: onOptionKeydown_anchor)
next
  case (Keyup ev)
  with assms show ?thesis by (simp add: onOptionKeyup_anchor)
next
  case (Click ev)
  with assms show ?thesis by (simp add: onOptionClick_anchor)
next
  case (OptionFocus ev)
  with assms onOptionFocus_keeps [of ev s s1] show ?thesis by auto
next
  case (SetOptions new)
  with assms set_options_keeps [of new s s1] show ?thesis by auto
next
  case (SetFilter f)
  with assms onFilterChange_keeps [of "s\<lparr>filter_text := f\<rparr>" s1] show ?thesis
    by (auto simp: set_filter_def split: if_splits)
next
  case (SetCaseSensitive b)
  with assms onFilterChange_keeps [of "s\<lparr>caseSensitive := b\<rparr>" s1] show ?thesis
    by (auto simp: set_caseSensitive_def split: if_splits)
next
  case (SetDisableFilter b)
  with assms onFilterChange_keeps [of "s\<lparr>disableFilter := b\<rparr>" s1] show ?thesis
    by (auto simp: set_disableFilter_def split: if_splits)
next
  case (SetMatchAnywhere b)
  with assms onFilterChange_keeps [of "s\<lparr>matchAnywhere := b\<rparr>" s1] show ?thesis
    by (auto simp: set_matchAnywhere_def split: if_splits)
next
  case (SetDisabled b)
  with assms show ?thesis by (auto simp: set_disabled_def)
next
  case (SetMultiSelectable b)
  with assms show ?thesis by (auto simp: set_multiSelectable_def)
next
  case (SetValue v)
  with assms show ?thesis by auto
qed

lemma handle_unsets_anchor:
  assumes "handle e s = Inr s1" and "shiftStartingItem s = Some a"
    and "shiftStartingItem s1 = None"
  shows "multiSelectable s \<and>
     (\<exists>ev. key ev = ''Shift'' \<and>
           (e = Keyup ev \<and> shiftKey ev \<or> e = Keydown ev \<and> activeItem s = None))"
  using handle_anchor [OF assms(1)] assms(2,3)
  by (cases e) (auto split: if_splits option.splits)

lemma run_snoc:
  "run (es @ [e]) s = (case run es s of Inl x \<Rightarrow> Inl x | Inr s1 \<Rightarrow> handle e s1)"
  by (induction es arbitrary: s) (auto split: sum.splits)

text \<open>The controller only reads the engine: no operation changes it.\<close>

lemma forEach_selected_engine [simp]: "engine (forEach_selected f rs s) = engine s"
  by (induction rs arbitrary: s) (auto simp: upd_elem_def)

lemma markOptions_engine [simp]: "engine (markOptions m rs s) = engine s"
  by (induction rs arbitrary: s) (auto simp: upd_elem_def)

lemma visibleOptions_engine: "visibleOptions s = Inr (vis, s1) \<Longrightarrow> engine s1 = engine s"
  by (auto simp: visibleOptions_def split: sum.splits)

lemma updateActiveDescendant_loop_engine:
  "updateActiveDescendant_loop rs s = Inr s1 \<Longrightarrow> engine s1 = engine s"
proof (induction rs arbitrary: s)
  case Nil
  then show ?case by simp
next
  case (Cons a rs)
  show ?case
  proof (cases "activePointer (tabindex s) = Some a")
    case False
    with Cons.prems Cons.IH show ?thesis
      by (fastforce simp: upd_elem_def split: if_splits)
  next
    case True
    with Cons.prems obtain vis s0 where v: "visibleOptions s = Inr (vis, s0)"
      by (auto split: sum.splits)
    note k = visibleOptions_engine [OF v]
    from Cons.prems True v Cons.IH k show ?thesis
      by (fastforce simp: upd_elem_def split: if_splits)
  qed
qed

lemma updateActiveDescendant_engine:
  "updateActiveDescendant s = Inr s1 \<Longrightarrow> engine s1 = engine s"
  unfolding updateActiveDescendant_def by (rule updateActiveDescendant_loop_engine)

lemma engine_kept [simp]:
  "engine (focusOnItem t s) = engine s"
  "engine (fireChange s) = engine s"
  "engine (fireInput s) = engine s"
  "engine (toggle_selected r s) = engine s"
  "engine (updateSingleselect s) = engine s"
  "engine (set_value v s) = engine s"
  by (simp_all add: focusOnItem_def fireChange_def fireInput_def toggle_selected_def
      upd_elem_def updateSingleselect_def set_value_def Let_def)

lemma keydown_finish_engine [simp]: "engine (keydown_finish v f s) = engine s"
  by (simp add: keydown_finish_def Let_def split: option.splits)

lemma updateMultiselect_engine:
  "updateMultiselect cur refItem ctrl s = Inr s1 \<Longrightarrow> engine s1 = engine s"
  by (auto simp: updateMultiselect_def Let_def
      split: if_splits sum.splits prod.splits option.splits)

lemma nextMatchingItem_engine:
  "nextMatchingItem k s = Inr (f, s1) \<Longrightarrow> engine s1 = engine s"
  by (auto simp: nextMatchingItem_def Let_def split: sum.splits dest: visibleOptions_engine)

lemma annotate_engine [simp]: "engine (annotate n i rs s) = engine s"
  by (induction rs arbitrary: s i) (auto simp: upd_elem_def)

lemma onFilterChange_engine: "onFilterChange s = Inr s1 \<Longrightarrow> engine s1 = engine s"
  by (auto simp: onFilterChange_def Let_def split: if_splits sum.splits
      dest: visibleOptions_engine)

lemma set_options_engine: "set_options new s = Inr s1 \<Longrightarrow> engine s1 = engine s"
  by (auto simp: set_options_def split: if_splits sum.splits dest!: visibleOptions_engine)

lemma onOptionFocus_engine: "onOptionFocus ev s = Inr s1 \<Longrightarrow> engine s1 = engine s"
  by (auto simp: onOptionFocus_def dest!: updateActiveDescendant_engine split: if_splits)

lemma onOptionClick_engine: "onOptionClick ev s = Inr s1 \<Longrightarrow> engine s1 = engine s"
  by (auto simp: onOptionClick_def Let_def split: if_splits sum.splits option.splits
      dest!: updateActiveDescendant_engine updateMultiselect_engine)

lemma onOptionKeyup_engine: "onOptionKeyup ev s = Inr s1 \<Longrightarrow> engine s1 = engine s"
  by (auto simp: onOptionKeyup_def split: if_splits sum.splits option.splits
      dest!: updateMultiselect_engine)

lemma onOptionKeydown_engine: "onOptionKeydown ev s = Inr s1 \<Longrightarrow> engine s1 = engine s"
  by (auto simp: onOptionKeydown_def Let_def
      split: if_splits sum.splits option.splits prod.splits
      dest!: updateMultiselect_engine nextMatchingItem_engine)

lemma handle_engine: "handle e s = Inr s1 \<Longrightarrow> engine s1 = engine s"
  by (cases e)
     (auto simp: set_filter_def set_caseSensitive_def set_disableFilter_def
        set_matchAnywhere_def set_disabled_def set_multiSelectable_def
        split: if_splits
        dest!: onOptionKeydown_engine onOptionKeyup_engine onOptionClick_engine
          onOptionFocus_engine set_options_engine onFilterChange_engine)

subsection \<open>The shift anchor\<close>

text \<open>
  C10, counterexample. Magenta is selected and taken as the anchor by a keydown of Shift;
  a Shift-click on Purple selects Magenta to Purple and moves the anchor to Purple; the
  focus then moves to Red. Shift+Enter on Red is a range gesture made before Shift is
  released, and its reference is not the target of the gesture before it (Purple, the
  anchor) but the active item, Red: nothing changes, where the range from the anchor
  would have selected Pink and Red. And the anchor is unset by an operation that is not
  a keyup: with Magenta as the anchor, the options are replaced by the empty list, which
  leaves the anchor, and a keydown of Shift then finds no active item and unsets it.
\<close>

theorem shift_anchor_counterexample:
  "map_sum id selection_and_anchor
     (run [SetMultiSelectable True, SetOptions [0, 1, 2, 3, 4, 5, 6, 7], Click (clicked 2),
           Keydown (pressed ''Shift'' 2), Click ((clicked 4)\<lparr>shiftKey := True\<rparr>),
           OptionFocus (clicked 6)] colours)
   = Inr ([''Magenta'', ''Orange'', ''Purple''], Some 4, Some 6) \<and>
   map_sum id selected_texts
     (run [SetMultiSelectable True, SetOptions [0, 1, 2, 3, 4, 5, 6, 7], Click (clicked 2),
           Keydown (pressed ''Shift'' 2), Click ((clicked 4)\<lparr>shiftKey := True\<rparr>),
           OptionFocus (clicked 6), Keydown ((pressed ''Enter'' 6)\<lparr>shiftKey := True\<rparr>)] colours)
   = Inr [''Magenta'', ''Orange'', ''Purple''] \<and>
   map_sum id selected_texts
     (then_do
        (run [SetMultiSelectable True, SetOptions [0, 1, 2, 3, 4, 5, 6, 7], Click (clicked 2),
              Keydown (pressed ''Shift'' 2), Click ((clicked 4)\<lparr>shiftKey := True\<rparr>),
              OptionFocus (clicked 6)] colours)
        (updateMultiselect 6 (Some 4) False))
   = Inr [''Magenta'', ''Orange'', ''Purple'', ''Pink'', ''Red''] \<and>
   map_sum id selection_and_anchor
     (run [SetMultiSelectable True, SetOptions [0, 1, 2, 3, 4, 5, 6, 7], Click (clicked 2),
           Keydown (pressed ''Shift'' 2), SetOptions []] colours)
   = Inr ([], Some 2, None) \<and>
   map_sum id selection_and_anchor
     (run [SetMultiSelectable True, SetOptions [0, 1, 2, 3, 4, 5, 6, 7], Click (clicked 2),
           Keydown (pressed ''Shift'' 2), SetOptions [], Keydown (pressed ''Shift'' 2)] colours)
   = Inr ([], None, None)"
  by code_simp

text \<open>
  C10, as amended. In a multi-selectable listbox: every application of
  \<open>#updateMultiselect\<close> that returns leaves its target as the anchor; a Shift-click and a
  keyup with Shift held take the anchor, the target of the gesture before, as their
  reference, and set the options as the range operation from that anchor does; Shift with
  Enter or Space takes the active item as its reference; a keydown of the Shift key
  overwrites the anchor with the active item. After every operation that returns, the
  anchor is the one that \<open>anchor_after\<close> describes: only a keydown of Shift, a range
  gesture (Ctrl with \<open>a\<close>, Shift with Enter or Space, and, when the anchor is set, a
  Shift-click or a keyup with Shift held) and a keyup of Shift with Shift held move it, all
  of them in a multi-selectable listbox only; a focus event, a click or a keyup without
  Shift, every other key and every setter leave it as it is. A set anchor is therefore
  unset only in a multi-selectable listbox, by a keyup of the Shift key with Shift held or
  by a keydown of the Shift key when there is no active item.
\<close>

theorem shift_anchor_chain:
  "(multiSelectable s \<longrightarrow> updateMultiselect cur refItem ctrl s = Inr sa \<longrightarrow>
      shiftStartingItem sa = Some cur) \<and>
   (multiSelectable s \<longrightarrow> shiftKey ev \<longrightarrow> shiftStartingItem s = Some a \<longrightarrow>
      onOptionClick ev s = Inr sb \<longrightarrow>
      (\<exists>u. updateMultiselect (target ev) (Some a) False s = Inr u \<and>
           (\<forall>r. selected (heap sb r) = selected (heap u r))) \<and>
      shiftStartingItem sb = Some (target ev)) \<and>
   (multiSelectable s \<longrightarrow> shiftKey ev \<longrightarrow> shiftStartingItem s = Some a \<longrightarrow>
      onOptionKeyup ev s = Inr sc \<longrightarrow>
      (\<exists>u. updateMultiselect (target ev) (Some a) False s = Inr u \<and> store sc = store u) \<and>
      shiftStartingItem sc = (if key ev = ''Shift'' then None else Some (target ev))) \<and>
   (multiSelectable s \<longrightarrow> shiftKey ev \<longrightarrow> \<not> ctrlKey ev \<longrightarrow> \<not> altKey ev \<longrightarrow> \<not> metaKey ev \<longrightarrow>
      key ev = ''Enter'' \<or> key ev = '' '' \<longrightarrow> onOptionKeydown ev s = Inr sd \<longrightarrow>
      (\<exists>u. updateMultiselect (target ev) (activeItem s) False (s\<lparr>showAllOptions := False\<rparr>) = Inr u \<and>
           store sd = store u) \<and>
      shiftStartingItem sd = Some (target ev)) \<and>
   (multiSelectable s \<longrightarrow> key ev = ''Shift'' \<longrightarrow> onOptionKeydown ev s = Inr se \<longrightarrow>
      shiftStartingItem se = activeItem s) \<and>
   (handle e s = Inr sf \<longrightarrow> shiftStartingItem sf = anchor_after e s) \<and>
   (handle e s = Inr sf \<longrightarrow> shiftStartingItem s = Some a \<longrightarrow> shiftStartingItem sf = None \<longrightarrow>
      multiSelectable s \<and>
      (\<exists>ev. key ev = ''Shift'' \<and>
            (e = Keyup ev \<and> shiftKey ev \<or> e = Keydown ev \<and> activeItem s = None)))"
proof (intro conjI impI)
  assume "multiSelectable s" "updateMultiselect cur refItem ctrl s = Inr sa"
  then show "shiftStartingItem sa = Some cur"
    using updateMultiselect_anchor [of cur refItem ctrl s sa] by simp
next
  assume h: "multiSelectable s" "shiftKey ev" "shiftStartingItem s = Some a"
    "onOptionClick ev s = Inr sb"
  from onOptionClick_shift [OF h]
  show "\<exists>u. updateMultiselect (target ev) (Some a) False s = Inr u \<and>
           (\<forall>r. selected (heap sb r) = selected (heap u r))"
    and "shiftStartingItem sb = Some (target ev)"
    by blast+
next
  assume h: "multiSelectable s" "shiftKey ev" "shiftStartingItem s = Some a"
    "onOptionKeyup ev s = Inr sc"
  from onOptionKeyup_shift [OF h]
  show "\<exists>u. updateMultiselect (target ev) (Some a) False s = Inr u \<and> store sc = store u"
    and "shiftStartingItem sc = (if key ev = ''Shift'' then None else Some (target ev))"
    by blast+
next
  assume h: "multiSelectable s" "shiftKey ev" "\<not> ctrlKey ev" "\<not> altKey ev" "\<not> metaKey ev"
    "key ev = ''Enter'' \<or> key ev = '' ''" "onOptionKeydown ev s = Inr sd"
  from onOptionKeydown_shift_enter [OF h]
  show "\<exists>u. updateMultiselect (target ev) (activeItem s) False (s\<lparr>showAllOptions := False\<rparr>) = Inr u \<and>
           store sd = store u"
    and "shiftStartingItem sd = Some (target ev)"
    by blast+
next
  assume "multiSelectable s" "key ev = ''Shift''" "onOptionKeydown ev s = Inr se"
  then show "shiftStartingItem se = activeItem s"
    using onOptionKeydown_shift_key by blast
next
  assume "handle e s = Inr sf"
  then show "shiftStartingItem sf = anchor_after e s"
    by (rule handle_anchor)
next
  assume h: "handle e s = Inr sf" "shiftStartingItem s = Some a" "shiftStartingItem sf = None"
  from handle_unsets_anchor [OF h]
  show "multiSelectable s"
    and "\<exists>ev. key ev = ''Shift'' \<and>
            (e = Keyup ev \<and> shiftKey ev \<or> e = Keydown ev \<and> activeItem s = None)"
    by blast+
qed

text \<open>
  C10, witness: on the eight colours, after a Shift-click on Purple the anchor is Purple;
  a focus event on Red returns and leaves Purple as the anchor, and a second Shift-click,
  on Red, returns with Red as the anchor.
\<close>

theorem shift_anchor_chain_witness:
  "\<exists>s sb sf. run [SetMultiSelectable True, SetOptions [0, 1, 2, 3, 4, 5, 6, 7], Click (clicked 2),
              Keydown (pressed ''Shift'' 2), Click ((clicked 4)\<lparr>shiftKey := True\<rparr>)] colours = Inr s \<and>
     multiSelectable s \<and> shiftStartingItem s = Some 4 \<and>
     onOptionClick ((clicked 6)\<lparr>shiftKey := True\<rparr>) s = Inr sb \<and>
     shiftStartingItem sb = Some 6 \<and>
     handle (OptionFocus (clicked 6)) s = Inr sf \<and> shiftStartingItem sf = Some 4"
proof -
  let ?prefix = "[SetMultiSelectable True, SetOptions [0, 1, 2, 3, 4, 5, 6, 7], Click (clicked 2),
              Keydown (pressed ''Shift'' 2), Click ((clicked 4)\<lparr>shiftKey := True\<rparr>)]"
  let ?ev = "(clicked 6)\<lparr>shiftKey := True\<rparr>"
  have p: "map_sum id (\<lambda>s. (multiSelectable s, shiftStartingItem s)) (run ?prefix colours)
      = Inr (True, Some 4)"
    by code_simp
  have q: "map_sum id (\<lambda>s. ()) (run (?prefix @ [Click ?ev]) colours) = Inr ()"
    by code_simp
  have q': "map_sum id (\<lambda>s. ()) (run (?prefix @ [OptionFocus (clicked 6)]) colours) = Inr ()"
    by code_simp
  obtain s where s: "run ?prefix colours = Inr s"
    using p by (cases "run ?prefix colours") auto
  with p have f: "multiSelectable s" "shiftStartingItem s = Some 4"
    by simp_all
  from q have "map_sum id (\<lambda>s. ()) (onOptionClick ?ev s) = Inr ()"
    by (simp only: run_snoc s sum.case handle.simps)
  then obtain sb where c: "onOptionClick ?ev s = Inr sb"
    by (cases "onOptionClick ?ev s") auto
  from q' have "map_sum id (\<lambda>s. ()) (handle (OptionFocus (clicked 6)) s) = Inr ()"
    by (simp only: run_snoc s sum.case)
  then obtain sf where g: "handle (OptionFocus (clicked 6)) s = Inr sf"
    by (cases "handle (OptionFocus (clicked 6)) s") auto
  have e: "shiftKey ?ev" "target ?ev = 6"
    by (simp_all add: clicked_def pressed_def)
  have "shiftStartingItem sb = Some 6"
    using shift_anchor_chain [where s = s and ev = ?ev and a = 4 and sb = sb] f c e by simp
  moreover have "shiftStartingItem sf = Some 4"
    using shift_anchor_chain [where s = s and e = "OptionFocus (clicked 6)" and sf = sf] f g
    by simp
  ultimately show ?thesis using s f c g by blast
qed

subsection \<open>The range operation\<close>

lemma nth_in_slice:
  assumes "distinct xs" and "k < length xs" and "lo \<le> hi" and "hi < length xs"
  shows "(xs ! k \<in> set (take (Suc hi - lo) (drop lo xs))) = (lo \<le> k \<and> k \<le> hi)"
proof
  assume "xs ! k \<in> set (take (Suc hi - lo) (drop lo xs))"
  then obtain p where p: "p < length (take (Suc hi - lo) (drop lo xs))"
    "take (Suc hi - lo) (drop lo xs) ! p = xs ! k"
    by (auto simp: in_set_conv_nth)
  then have "xs ! (lo + p) = xs ! k" and "lo + p < length xs" and "p < Suc hi - lo"
    using assms(3,4) by auto
  with assms(1,2) have "lo + p = k"
    by (simp add: nth_eq_iff_index_eq)
  with \<open>p < Suc hi - lo\<close> show "lo \<le> k \<and> k \<le> hi" by auto
next
  assume a: "lo \<le> k \<and> k \<le> hi"
  then have "k - lo < length (take (Suc hi - lo) (drop lo xs))"
    using assms(3,4) by auto
  moreover have "take (Suc hi - lo) (drop lo xs) ! (k - lo) = xs ! k"
    using a assms(3,4) by auto
  ultimately show "xs ! k \<in> set (take (Suc hi - lo) (drop lo xs))"
    by (metis nth_mem)
qed

text \<open>
  On a list of at most ten distinct options the two indices have one digit each and are
  sorted as numbers: the operation returns, and changes exactly the options between the
  reference and the target, whichever comes first. With Ctrl they are deselected when all
  of them were selected and selected otherwise; without Ctrl they take the selected state
  of the reference.
\<close>

lemma updateMultiselect_short_list:
  assumes "multiSelectable s" and "distinct (options s)" and "length (options s) \<le> 10"
    and "i < length (options s)" and "j < length (options s)" and "k < length (options s)"
  shows "\<exists>s1. updateMultiselect (options s ! j) (Some (options s ! i)) ctrl s = Inr s1 \<and>
     options s1 = options s \<and>
     selected (heap s1 (options s ! k)) =
       (if min i j \<le> k \<and> k \<le> max i j
        then (if ctrl
              then \<not> list_all (\<lambda>r. selected (heap s r))
                       (take (Suc (max i j) - min i j) (drop (min i j) (options s)))
              else selected (heap s (options s ! i)))
        else selected (heap s (options s ! k)))"
proof -
  let ?xs = "options s"
  let ?lo = "min i j"
  let ?hi = "max i j"
  have digits: "i < 10" "j < 10" using assms(3-5) by auto
  have idx: "indexOf ?xs (?xs ! i) = int i" "indexOf ?xs (?xs ! j) = int j"
    using assms(2,4,5) by (simp_all add: indexOf_nth)
  have sorted: "js_sort_pair (int i) (int j) = (int ?lo, int ?hi)"
    using digits by (rule js_sort_pair_one_digit)
  have b: "?lo \<le> ?hi" "?hi < length ?xs" using assms(4,5) by auto
  have slice: "js_slice ?xs (int ?lo) (int ?hi + 1) = take (Suc ?hi - ?lo) (drop ?lo ?xs)"
    using b by (rule js_slice_range)
  have mem: "(?xs ! k \<in> set (take (Suc ?hi - ?lo) (drop ?lo ?xs))) = (?lo \<le> k \<and> k \<le> ?hi)"
    using assms(2,6) b by (rule nth_in_slice)
  show ?thesis
    using assms(1)
    by (simp add: updateMultiselect_def idx sorted slice Let_def filter_not_empty_iff
        forEach_selected_const mem del: min_less_iff_conj max_less_iff_conj)
qed

text \<open>
  C3 (the range between the reference and the target). The two indices are sorted by
  \<open>sort()\<close> with no comparator, that is as strings: \<open>[2, 10]\<close> becomes \<open>[10, 2]\<close>, and the
  slice from 10 to 3 is empty. With eleven options, the third one selected and taken as
  the anchor by a keydown of Shift, a Shift-click on the eleventh changes no option: only
  \<open>c\<close> is selected afterwards, not the nine options from \<open>c\<close> to \<open>k\<close>.
\<close>

theorem range_select_beyond_ten_options:
  "js_sort_pair 2 10 = (10, 2) \<and>
   map_sum id selected_texts
     (run [SetMultiSelectable True, SetOptions [0, 1, 2, 3, 4, 5, 6, 7, 8, 9, 10],
           Click (clicked 2), Keydown (pressed ''Shift'' 2),
           Click ((clicked 10)\<lparr>shiftKey := True\<rparr>)]
        (new_listbox (store_of letter_names)))
   = Inr [''c'']"
  by code_simp

subsection \<open>Single selection\<close>

lemma heap_forEach_selected_target:
  "selected (heap (forEach_selected (\<lambda>r e. r = t) rs s) q) =
     (if q \<in> set rs then q = t else selected (heap s q))"
  by (induction rs arbitrary: s) (auto simp: upd_elem_def)

lemma updateActiveDescendant_loop_options:
  "updateActiveDescendant_loop rs s = Inr s1 \<Longrightarrow> options s1 = options s"
proof (induction rs arbitrary: s)
  case Nil
  then show ?case by simp
next
  case (Cons a rs)
  show ?case
  proof (cases "activePointer (tabindex s) = Some a")
    case False
    with Cons.prems Cons.IH show ?thesis
      by (fastforce simp: upd_elem_def split: if_splits)
  next
    case True
    with Cons.prems obtain vis s0 where v: "visibleOptions s = Inr (vis, s0)"
      by (auto split: sum.splits)
    note k = visibleOptions_keeps [OF v]
    from Cons.prems True v Cons.IH k(3) show ?thesis
      by (fastforce simp: upd_elem_def split: if_splits)
  qed
qed

text \<open>A click in a single-select listbox leaves selected the clicked option and no
  other option of the list.\<close>

lemma onOptionClick_single_select:
  assumes "\<not> multiSelectable s" and "onOptionClick ev s = Inr s1"
  shows "options s1 = options s \<and>
     selectedOptions s1 = filter (\<lambda>r. r = target ev) (options s)"
proof -
  let ?s0 = "forEach_selected (\<lambda>r e. r = target ev) (options s) s"
  have sel0: "\<And>q. q \<in> set (options s) \<Longrightarrow> selected (heap ?s0 q) = (q = target ev)"
    by (simp add: heap_forEach_selected_target)
  have "options s1 = options s \<and> (\<forall>q. selected (heap s1 q) = selected (heap ?s0 q))"
  proof (cases "Some (target ev) \<noteq> activePointer (tabindex ?s0)")
    case False
    with assms show ?thesis
      by (auto simp: onOptionClick_def Let_def split: if_splits)
  next
    case True
    with assms obtain s2 where
      d: "updateActiveDescendant (focusOnItem (target ev) ?s0) = Inr s2"
      and r: "s1 = (if strict_neq (get_value s) (get_value s2) then fireChange s2 else s2)"
      by (auto simp: onOptionClick_def Let_def split: sum.splits if_splits)
    have "options s2 = options s"
      using updateActiveDescendant_loop_options [of "options (focusOnItem (target ev) ?s0)"
          "focusOnItem (target ev) ?s0" s2] d
      by (simp add: updateActiveDescendant_def focusOnItem_def)
    moreover have "\<forall>q. selected (heap s2 q) = selected (heap ?s0 q)"
      using updateActiveDescendant_keeps [OF d] by simp
    ultimately show ?thesis using r by simp
  qed
  with sel0 show ?thesis
    by (auto simp: selectedOptions_def intro: filter_cong)
qed

text \<open>
  C2 (single selection follows the active descendant). In a single-select listbox of the
  eight colours, a click on Blue selects Blue and makes it the active item; an
  option-focus event on Green then makes Green the active descendant, and leaves Blue
  selected: \<open>#onOptionFocus\<close> does not touch the selection.
\<close>

theorem single_select_focus_keeps_selection:
  "map_sum id selection_and_active
     (run [SetOptions [0, 1, 2, 3, 4, 5, 6, 7], Click (clicked 0)] colours)
   = Inr ([''Blue''], Some ''Blue'') \<and>
   map_sum id selection_and_active
     (run [SetOptions [0, 1, 2, 3, 4, 5, 6, 7], Click (clicked 0), OptionFocus (clicked 1)] colours)
   = Inr ([''Blue''], Some ''Green'')"
  by code_simp

subsection \<open>Typeahead\<close>

text \<open>
  C5 (typeahead moves to the next match after the active item). In \<open>#nextMatchingItem\<close>
  the index of the active item is always \<open>-1\<close>, so the search runs over the last visible
  option and then the others from the first on, wherever the active item is. After a click
  on Purple, which makes it the active item and gives it the focus, the key \<open>p\<close> finds
  Purple again and the focus stays on Purple; it does not go on to Pink.
\<close>

theorem typeahead_stays_on_active_item:
  "map_sum id active_and_focus
     (run [SetOptions [0, 1, 2, 3, 4, 5, 6, 7], Click (clicked 4)] colours)
   = Inr (Some ''Purple'', Some ''Purple'') \<and>
   map_sum id fst
     (then_do (run [SetOptions [0, 1, 2, 3, 4, 5, 6, 7], Click (clicked 4)] colours)
        (nextMatchingItem ''p''))
   = Inr (Some 4) \<and>
   map_sum id active_and_focus
     (run [SetOptions [0, 1, 2, 3, 4, 5, 6, 7], Click (clicked 4),
           Keydown (pressed ''p'' 4)] colours)
   = Inr (Some ''Purple'', Some ''Purple'')"
  by code_simp

subsection \<open>Notifications\<close>

lemma get_value_fireChange [simp]: "get_value (fireChange s) = get_value s"
  by (simp add: get_value_def selectedOptions_def fireChange_def)

lemma get_value_fireInput [simp]: "get_value (fireInput s) = get_value s"
  by (simp add: get_value_def selectedOptions_def fireInput_def)

text \<open>Whenever an operation returns with another value than before, it has dispatched its
  event: \<open>input\<close> from the value setter and the filter, \<open>change\<close> from the click and the
  keys.\<close>

lemma strict_neq_of_neq: "v \<noteq> w \<Longrightarrow> strict_neq w v"
  by (cases v; cases w) auto

lemma set_value_notifies:
  assumes "get_value (set_value v s) \<noteq> get_value s"
  shows "Input \<in> set (dispatched (set_value v s))"
proof -
  have "\<exists>x. set_value v s =
      (if strict_neq (get_value s) (get_value x) then fireInput x else x)"
    unfolding set_value_def Let_def by (rule exI) (rule refl)
  then obtain x where
    x: "set_value v s = (if strict_neq (get_value s) (get_value x) then fireInput x else x)" ..
  show ?thesis
    using assms unfolding x
    by (auto simp: fireInput_def split: if_splits dest: strict_neq_of_neq)
qed

lemma onFilterChange_notifies:
  "onFilterChange s = Inr s1 \<Longrightarrow> get_value s1 \<noteq> get_value s \<Longrightarrow>
   Input \<in> set (dispatched s1)"
  by (auto simp: onFilterChange_def Let_def fireInput_def split: if_splits sum.splits
      dest: strict_neq_of_neq)

lemma onOptionClick_notifies:
  "onOptionClick ev s = Inr s1 \<Longrightarrow> get_value s1 \<noteq> get_value s \<Longrightarrow>
   Change \<in> set (dispatched s1)"
  by (auto simp: onOptionClick_def Let_def fireChange_def
      split: if_splits sum.splits option.splits dest: strict_neq_of_neq)

lemma get_value_focusOnItem [simp]: "get_value (focusOnItem r s) = get_value s"
  by (simp add: get_value_def selectedOptions_def focusOnItem_def)

lemma dispatched_focusOnItem [simp]: "dispatched (focusOnItem r s) = dispatched s"
  by (simp add: focusOnItem_def)

lemma keydown_finish_notifies:
  "get_value (keydown_finish (get_value s) f s1) \<noteq> get_value s \<Longrightarrow>
   Change \<in> set (dispatched (keydown_finish (get_value s) f s1))"
  by (auto simp: keydown_finish_def Let_def fireChange_def
      split: if_splits option.splits dest: strict_neq_of_neq)

lemma onOptionKeydown_notifies:
  assumes "onOptionKeydown ev s = Inr s1" and "get_value s1 \<noteq> get_value s"
  shows "Change \<in> set (dispatched s1)"
proof -
  let ?s0 = "s\<lparr>showAllOptions := False\<rparr>"
  let ?s1 = "if key ev = ''Shift'' \<and> multiSelectable ?s0
             then ?s0\<lparr>shiftStartingItem := activeItem ?s0\<rparr> else ?s0"
  have v: "get_value ?s1 = get_value s"
    by (simp add: get_value_def selectedOptions_def)
  from assms(1) have "s1 = ?s1 \<or> (\<exists>f x. s1 = keydown_finish (get_value ?s1) f x)"
    by (auto simp: onOptionKeydown_def Let_def split: if_splits sum.splits option.splits)
  then show ?thesis
  proof
    assume "s1 = ?s1"
    with v assms(2) show ?thesis by simp
  next
    assume "\<exists>f x. s1 = keydown_finish (get_value ?s1) f x"
    then obtain f x where "s1 = keydown_finish (get_value s) f x"
      unfolding v by blast
    with assms(2) show ?thesis
      using keydown_finish_notifies [of s f x] by simp
  qed
qed

lemma onOptionKeyup_notifies:
  "onOptionKeyup ev s = Inr s1 \<Longrightarrow> get_value s1 \<noteq> get_value s \<Longrightarrow>
   Change \<in> set (dispatched s1)"
  by (auto simp: onOptionKeyup_def fireChange_def get_value_def selectedOptions_def
      split: if_splits sum.splits option.splits)

text \<open>
  C7 (no notification without a change of the value). On a multi-selectable listbox with
  no option, a change of the filter text dispatches \<open>input\<close> and a keydown of an arrow key
  dispatches \<open>change\<close>: the value read before and the value read after are two arrays,
  never identical, and the test \<open>oldValue !== this.value\<close> always succeeds.
\<close>

theorem notification_without_change:
  "map_sum id options_and_events
     (run [SetMultiSelectable True, SetFilter ''a''] colours) = Inr ([], [Input]) \<and>
   map_sum id options_and_events
     (run [SetMultiSelectable True, Keydown (pressed ''ArrowDown'' 0)] colours)
     = Inr ([], [Change])"
  by code_simp

subsection \<open>The disabled listbox\<close>

text \<open>
  C9 (a disabled listbox ignores changes of filter and selection). Only \<open>#onFilterChange\<close>
  tests \<open>disabled\<close>. On the disabled listbox of the eight colours a click selects Blue and
  dispatches \<open>change\<close>; when multi-selectable, Enter on Orange selects it and dispatches
  \<open>change\<close>; and a filter text set while disabled is stored, so the visible options read
  afterwards are those of the new filter.
\<close>

theorem disabled_listbox_still_selects:
  "map_sum id selection_and_events
     (run [SetOptions [0, 1, 2, 3, 4, 5, 6, 7], SetDisabled True, Click (clicked 0)] colours)
   = Inr (True, [''Blue''], [Change]) \<and>
   map_sum id selection_and_events
     (run [SetMultiSelectable True, SetOptions [0, 1, 2, 3, 4, 5, 6, 7], SetDisabled True,
           Keydown (pressed ''Enter'' 3)] colours)
   = Inr (True, [''Orange''], [Change]) \<and>
   then_do (run [SetOptions [0, 1, 2, 3, 4, 5, 6, 7], SetDisabled True, SetFilter ''r''] colours)
     visible_texts
   = Inr [''Red'']"
  by code_simp

end
